theory Spec2Isabelle
  imports Complex_Main "HOL-Library.Sublist"
begin

section \<open>Data model\<close>

text \<open>
  In the search and in the orchestrator, numbers are exact reals: what is proved there depends
  on the comparisons of scores only. The arithmetic of \<open>calculateCosineSimilarity\<close> on
  IEEE-754 doubles, with rounding, overflow and underflow, is given beside the exact one.
  \<open>NaN\<close>, which \<open>parseFloat\<close> and \<open>parseInt\<close> return on unparsable text, is the value
  \<open>None\<close> of an option type. A value read from the JSON column \<open>embedding\<close> is either an
  array of numbers or something that \<open>Array.isArray\<close> rejects.
\<close>

datatype json = JArray "real list" | JNotArray

text \<open>The object handed to \<open>insertDocument\<close>, and a row of the table \<open>documents\<close>
  (the column \<open>id\<close> is \<open>doc_id\<close> here; timestamps are integers).\<close>

record new_document =
  filename :: string
  file_hash :: string
  file_size :: nat
  mime_type :: string
  extracted_text :: string
  ai_summary :: string
  embedding :: json
  embedding_model :: string

record document = new_document +
  doc_id :: nat
  created_at :: int

text \<open>An entry pushed to \<open>similarities\<close> by \<open>findSimilarDocuments\<close>.\<close>

record similarity =
  sim_id :: nat
  sim_filename :: string
  sim_file_hash :: string
  sim_ai_summary :: string
  sim_created_at :: int
  similarity_score :: real

text \<open>The uploaded file (multer's \<open>req.file\<close>).\<close>

record upload =
  originalname :: string
  buffer :: string
  fsize :: nat
  mimetype :: string

datatype js_error = ER_DUP_ENTRY | ER_DB_UNAVAILABLE | EmbeddingFailed | GenerationFailed | TypeError

fun message :: "js_error \<Rightarrow> string" where
  "message ER_DUP_ENTRY = ''Duplicate entry for key file_hash''"
| "message ER_DB_UNAVAILABLE = ''connect ECONNREFUSED''"
| "message EmbeddingFailed = ''Failed to generate embedding''"
| "message GenerationFailed = ''Generation failed''"
| "message TypeError = ''Cannot read properties of null''"

text \<open>The objects returned by \<open>processDocumentWithRAG\<close>; a field that a return statement
  leaves out is \<open>None\<close> (or \<open>False\<close> for \<open>needsAiGeneration\<close>).\<close>

record rag_result =
  isFromRAG :: bool
  aiSummary :: "string option"
  similarDocuments :: "similarity list"
  exactMatch :: "bool option"
  matchedDocument :: "(nat \<times> string \<times> int) option"
  bestMatch :: "(string \<times> real \<times> int) option"
  fileHash :: "string option"
  result_embedding :: "real list option"
  needsAiGeneration :: bool
  newDocumentId :: "nat option"
  error :: "string option"

text \<open>Module constants read from the process environment.\<close>

record config =
  RAG_ENABLED :: bool
  SIMILARITY_THRESHOLD :: real
  MAX_SIMILAR_DOCUMENTS :: int
  EMBEDDING_MODEL :: string

text \<open>The database calls that can throw, and the two places where \<open>processDocumentWithRAG\<close>
  is suspended long enough for another request to commit rows: while it awaits the
  embedding, and between the similarity search and its own insert.\<close>

datatype db_call = GetDocumentByHash | GetRagSetting string | SelectAllDocuments | InsertDocument

datatype await_point = AwaitingEmbedding | AwaitingInsert

text \<open>The external collaborators: the digest, the embedding and generation services (\<open>None\<close>
  when the call throws), the two parsers, which database calls fail, and what other
  requests insert at the two suspension points.\<close>

record services =
  sha256 :: "string \<Rightarrow> string"
  embedding_service :: "string \<Rightarrow> real list option"
  generation_service :: "string \<Rightarrow> string option"
  parseFloat :: "string \<Rightarrow> real option"
  parseInt :: "string \<Rightarrow> int option"
  db_fails :: "db_call \<Rightarrow> bool"
  concurrent :: "await_point \<Rightarrow> new_document list"

text \<open>What a request does and observes, in order: the calls it makes, the row its own
  insert stores, the rows other requests commit meanwhile, and every exception thrown.\<close>

datatype event =
    Called_summarizeLongText string
  | Called_getDocumentByHash string
  | Called_generateEmbedding string
  | Called_getRagSetting string
  | Called_findSimilarDocuments
  | Called_insertDocument string
  | Inserted document
  | Committed_by_other document
  | Threw js_error

record state =
  documents :: "document list"
  rag_settings :: "(string \<times> string) list"
  next_id :: nat
  now :: int
  trace :: "event list"

definition record_event :: "event \<Rightarrow> state \<Rightarrow> state" where
  "record_event e s = s\<lparr>trace := trace s @ [e]\<rparr>"

definition throw :: "js_error \<Rightarrow> state \<Rightarrow> (js_error + 'a) \<times> state" where
  "throw e s = (Inl e, record_event (Threw e) s)"

section \<open>database.js\<close>

subsection \<open>calculateCosineSimilarity\<close>

fun accumulate :: "real list \<Rightarrow> real list \<Rightarrow> real \<times> real \<times> real \<Rightarrow> real \<times> real \<times> real" where
  "accumulate (x # xs) (y # ys) (dotProduct, magnitude1, magnitude2) =
     accumulate xs ys (dotProduct + x * y, magnitude1 + x * x, magnitude2 + y * y)"
| "accumulate _ _ acc = acc"

definition calculateCosineSimilarity :: "json \<Rightarrow> json \<Rightarrow> real" where
  "calculateCosineSimilarity vec1 vec2 =
     (case (vec1, vec2) of
        (JArray a, JArray b) \<Rightarrow>
          if length a = length b then
            (case accumulate a b (0, 0, 0) of
               (dotProduct, magnitude1, magnitude2) \<Rightarrow>
                 if magnitude1 = 0 \<or> magnitude2 = 0 then 0
                 else dotProduct / (sqrt magnitude1 * sqrt magnitude2))
          else 0
      | _ \<Rightarrow> 0)"

text \<open>The formula of the specification: \<open>dot(a,b) / (||a|| * ||b||)\<close>.\<close>

definition dot :: "real list \<Rightarrow> real list \<Rightarrow> real" where
  "dot a b = sum_list (map2 (*) a b)"

definition magnitude :: "real list \<Rightarrow> real" where
  "magnitude a = sqrt (dot a a)"

subsection \<open>\<open>calculateCosineSimilarity\<close> in double precision\<close>

text \<open>
  A double is a real, an infinity (\<open>Infinity True\<close> is the positive one) or \<open>NaN\<close>; the sign
  of zero is not kept. \<open>fl\<close> rounds an exact result to the nearest double, ties to even:
  the grid in the binade of \<open>x\<close> has the spacing \<open>pow2 (exponent x - 52)\<close>, the subnormal
  numbers share the spacing \<open>pow2 (- 1074)\<close>, and a result of magnitude \<open>2 ^ 1024\<close> or more
  is infinite.
\<close>

datatype double = Finite real | Infinity bool | NaN

definition pow2 :: "int \<Rightarrow> real" where
  "pow2 e = (if 0 \<le> e then 2 ^ nat e else 1 / 2 ^ nat (- e))"

definition exponent :: "real \<Rightarrow> int" where
  "exponent x = max \<lfloor>log 2 \<bar>x\<bar>\<rfloor> (- 1022)"

definition round_half_even :: "real \<Rightarrow> int" where
  "round_half_even y =
     (if y - of_int \<lfloor>y\<rfloor> = 1 / 2 then (if even \<lfloor>y\<rfloor> then \<lfloor>y\<rfloor> else \<lfloor>y\<rfloor> + 1) else round y)"

definition nearest :: "real \<Rightarrow> real" where
  "nearest x =
     (if x = 0 then 0
      else of_int (round_half_even (x / pow2 (exponent x - 52))) * pow2 (exponent x - 52))"

definition fl :: "real \<Rightarrow> double" where
  "fl x = (if 2 ^ 1024 \<le> \<bar>nearest x\<bar> then Infinity (0 < x) else Finite (nearest x))"

fun times_double :: "double \<Rightarrow> double \<Rightarrow> double" where
  "times_double (Finite a) (Finite b) = fl (a * b)"
| "times_double (Finite a) (Infinity t) = (if a = 0 then NaN else Infinity (t = (0 < a)))"
| "times_double (Infinity s) (Finite b) = (if b = 0 then NaN else Infinity (s = (0 < b)))"
| "times_double (Infinity s) (Infinity t) = Infinity (s = t)"
| "times_double _ _ = NaN"

fun plus_double :: "double \<Rightarrow> double \<Rightarrow> double" where
  "plus_double (Finite a) (Finite b) = fl (a + b)"
| "plus_double (Finite a) (Infinity t) = Infinity t"
| "plus_double (Infinity s) (Finite b) = Infinity s"
| "plus_double (Infinity s) (Infinity t) = (if s = t then Infinity s else NaN)"
| "plus_double _ _ = NaN"

fun divide_double :: "double \<Rightarrow> double \<Rightarrow> double" where
  "divide_double (Finite a) (Finite b) =
     (if b = 0 then (if a = 0 then NaN else Infinity (0 < a)) else fl (a / b))"
| "divide_double (Finite a) (Infinity t) = Finite 0"
| "divide_double (Infinity s) (Finite b) = Infinity (s = (0 \<le> b))"
| "divide_double _ _ = NaN"

fun sqrt_double :: "double \<Rightarrow> double" where
  "sqrt_double (Finite a) = (if a < 0 then NaN else fl (sqrt a))"
| "sqrt_double (Infinity s) = (if s then Infinity True else NaN)"
| "sqrt_double NaN = NaN"

fun accumulate_double ::
  "double list \<Rightarrow> double list \<Rightarrow> double \<times> double \<times> double \<Rightarrow> double \<times> double \<times> double" where
  "accumulate_double (x # xs) (y # ys) (dotProduct, magnitude1, magnitude2) =
     accumulate_double xs ys
       (plus_double dotProduct (times_double x y), plus_double magnitude1 (times_double x x),
        plus_double magnitude2 (times_double y y))"
| "accumulate_double _ _ acc = acc"

definition calculateCosineSimilarity_double :: "double list \<Rightarrow> double list \<Rightarrow> double" where
  "calculateCosineSimilarity_double a b =
     (if length a = length b then
        (case accumulate_double a b (Finite 0, Finite 0, Finite 0) of
           (dotProduct, magnitude1, magnitude2) \<Rightarrow>
             if magnitude1 = Finite 0 \<or> magnitude2 = Finite 0 then Finite 0
             else divide_double dotProduct
                    (times_double (sqrt_double magnitude1) (sqrt_double magnitude2)))
      else Finite 0)"

text \<open>Whether the \<open>return\<close> with the division is reached, and what it divides by.\<close>

definition divides_double :: "double list \<Rightarrow> double list \<Rightarrow> bool" where
  "divides_double a b =
     (length a = length b \<and>
      (case accumulate_double a b (Finite 0, Finite 0, Finite 0) of
         (dotProduct, magnitude1, magnitude2) \<Rightarrow>
           magnitude1 \<noteq> Finite 0 \<and> magnitude2 \<noteq> Finite 0))"

definition divisor_double :: "double list \<Rightarrow> double list \<Rightarrow> double" where
  "divisor_double a b =
     (case accumulate_double a b (Finite 0, Finite 0, Finite 0) of
        (dotProduct, magnitude1, magnitude2) \<Rightarrow>
          times_double (sqrt_double magnitude1) (sqrt_double magnitude2))"

text \<open>A sum of squares as the loop computes it: zero, at least the least positive double,
  infinite or NaN.\<close>

definition magnitude_value :: "double \<Rightarrow> bool" where
  "magnitude_value m =
     (case m of Finite v \<Rightarrow> v = 0 \<or> pow2 (- 1074) \<le> v | Infinity s \<Rightarrow> s | NaN \<Rightarrow> True)"

text \<open>A double that is a number, and the dot product as the loop accumulates it.\<close>

definition finite_double :: "double \<Rightarrow> bool" where
  "finite_double v = (case v of Finite r \<Rightarrow> True | _ \<Rightarrow> False)"

definition dotProduct_double :: "double list \<Rightarrow> double list \<Rightarrow> double" where
  "dotProduct_double a b = fst (accumulate_double a b (Finite 0, Finite 0, Finite 0))"

subsection \<open>Queries\<close>

text \<open>A row is stored if its \<open>file_hash\<close> is new (the column is \<open>UNIQUE\<close>); it gets the next
  \<open>AUTO_INCREMENT\<close> id and the current timestamp.\<close>

definition hash_taken :: "string \<Rightarrow> state \<Rightarrow> bool" where
  "hash_taken h s = (find (\<lambda>d. file_hash d = h) (documents s) \<noteq> None)"

definition make_row :: "new_document \<Rightarrow> state \<Rightarrow> document" where
  "make_row nd s =
     \<lparr>filename = filename nd, file_hash = file_hash nd, file_size = file_size nd,
      mime_type = mime_type nd, extracted_text = extracted_text nd,
      ai_summary = ai_summary nd, embedding = embedding nd,
      embedding_model = embedding_model nd, doc_id = next_id s, created_at = now s\<rparr>"

definition store_row :: "document \<Rightarrow> state \<Rightarrow> state" where
  "store_row row s = s\<lparr>documents := documents s @ [row], next_id := Suc (next_id s)\<rparr>"

text \<open>Another request's insert: rejected on a duplicate hash, committed otherwise.\<close>

definition commit_other :: "new_document \<Rightarrow> state \<Rightarrow> state" where
  "commit_other nd s =
     (if hash_taken (file_hash nd) s then s
      else record_event (Committed_by_other (make_row nd s)) (store_row (make_row nd s) s))"

definition commit_concurrent :: "services \<Rightarrow> await_point \<Rightarrow> state \<Rightarrow> state" where
  "commit_concurrent sv p s = fold commit_other (concurrent sv p) s"

definition getDocumentByHash :: "services \<Rightarrow> string \<Rightarrow> state \<Rightarrow> (js_error + document option) \<times> state" where
  "getDocumentByHash sv h s =
     (let s' = record_event (Called_getDocumentByHash h) s in
      if db_fails sv GetDocumentByHash then throw ER_DB_UNAVAILABLE s'
      else (Inr (find (\<lambda>d. file_hash d = h) (documents s)), s'))"

definition insertDocument :: "services \<Rightarrow> new_document \<Rightarrow> state \<Rightarrow> (js_error + nat) \<times> state" where
  "insertDocument sv nd s =
     (let s' = record_event (Called_insertDocument (file_hash nd)) s in
      if db_fails sv InsertDocument then throw ER_DB_UNAVAILABLE s'
      else if hash_taken (file_hash nd) s' then throw ER_DUP_ENTRY s'
      else (Inr (next_id s'), record_event (Inserted (make_row nd s')) (store_row (make_row nd s') s')))"

definition getRagSetting :: "services \<Rightarrow> string \<Rightarrow> state \<Rightarrow> (js_error + string option) \<times> state" where
  "getRagSetting sv k s =
     (let s' = record_event (Called_getRagSetting k) s in
      if db_fails sv (GetRagSetting k) then throw ER_DB_UNAVAILABLE s'
      else (Inr (map_of (rag_settings s) k), s'))"

text \<open>\<open>SELECT ... FROM documents ORDER BY created_at DESC\<close>.\<close>

definition select_all_newest_first :: "state \<Rightarrow> document list" where
  "select_all_newest_first s = sort_key (\<lambda>d. - created_at d) (documents s)"

subsection \<open>findSimilarDocuments\<close>

definition js_ge :: "real \<Rightarrow> real option \<Rightarrow> bool" where
  "js_ge x t = (case t of None \<Rightarrow> False | Some v \<Rightarrow> v \<le> x)"

definition entry :: "document \<Rightarrow> real \<Rightarrow> similarity" where
  "entry doc sim =
     \<lparr>sim_id = doc_id doc, sim_filename = filename doc, sim_file_hash = file_hash doc,
      sim_ai_summary = ai_summary doc, sim_created_at = created_at doc,
      similarity_score = sim\<rparr>"

text \<open>The \<open>for\<close> loop over \<open>allDocs\<close>, with its \<open>break\<close>.\<close>

fun scan :: "json \<Rightarrow> real option \<Rightarrow> document list \<Rightarrow> similarity list \<Rightarrow> similarity list" where
  "scan q t [] similarities = similarities"
| "scan q t (doc # rest) similarities =
     (let sim = calculateCosineSimilarity q (embedding doc) in
      if js_ge sim t then
        (if sim > 0.95 then similarities @ [entry doc sim]
         else scan q t rest (similarities @ [entry doc sim]))
      else scan q t rest similarities)"

text \<open>\<open>Array.prototype.sort\<close> is stable (the file uses optional chaining, so it runs on an
  engine of ECMAScript 2020 or later, where stability is required), so with the comparator
  \<open>b.similarity_score - a.similarity_score\<close> it is the stable sort on the negated score.\<close>

definition sort_by_score :: "similarity list \<Rightarrow> similarity list" where
  "sort_by_score sims = sort_key (\<lambda>e. - similarity_score e) sims"

text \<open>\<open>xs.slice(0, limit)\<close>: a negative limit counts from the end, \<open>NaN\<close> is 0. Both callers
  pass a threshold and a limit, so the default values of the parameters play no part.\<close>

definition slice0 :: "'a list \<Rightarrow> int option \<Rightarrow> 'a list" where
  "slice0 xs limit =
     (case limit of
        None \<Rightarrow> []
      | Some e \<Rightarrow> if e < 0 then take (nat (int (length xs) + e)) xs else take (nat e) xs)"

definition findSimilarDocuments ::
  "services \<Rightarrow> json \<Rightarrow> real option \<Rightarrow> int option \<Rightarrow> state \<Rightarrow> similarity list \<times> state" where
  "findSimilarDocuments sv emb threshold limit s =
     (let s' = record_event Called_findSimilarDocuments s in
      if db_fails sv SelectAllDocuments then ([], record_event (Threw ER_DB_UNAVAILABLE) s')
      else
        (let allDocs = select_all_newest_first s in
         if allDocs = [] then ([], s')
         else (slice0 (sort_by_score (scan emb threshold allDocs [])) limit, s')))"

text \<open>The same search without the early exit: every candidate is scored.\<close>

definition full_scan :: "json \<Rightarrow> real option \<Rightarrow> document list \<Rightarrow> similarity list" where
  "full_scan q t docs =
     map (\<lambda>d. entry d (calculateCosineSimilarity q (embedding d)))
       (filter (\<lambda>d. js_ge (calculateCosineSimilarity q (embedding d)) t) docs)"



text \<open>A stored embedding that is an array of the query's length.\<close>

definition same_dimension :: "real list \<Rightarrow> document \<Rightarrow> bool" where
  "same_dimension a d = (case embedding d of JArray b \<Rightarrow> length b = length a | JNotArray \<Rightarrow> False)"

section \<open>rag-service.js\<close>

definition generateFileHash :: "services \<Rightarrow> string \<Rightarrow> string" where
  "generateFileHash sv buf = sha256 sv buf"

definition generateEmbedding :: "services \<Rightarrow> string \<Rightarrow> state \<Rightarrow> (js_error + real list) \<times> state" where
  "generateEmbedding sv text s =
     (let s' = record_event (Called_generateEmbedding text) s in
      case embedding_service sv text of
        None \<Rightarrow> throw EmbeddingFailed s'
      | Some v \<Rightarrow> (Inr v, s'))"

text \<open>\<open>parseFloat(setting || SIMILARITY_THRESHOLD)\<close> and \<open>parseInt(setting || MAX_SIMILAR_DOCUMENTS)\<close>:
  a missing or empty setting is falsy, and the parsers return a number unchanged.\<close>

definition threshold_of :: "services \<Rightarrow> config \<Rightarrow> string option \<Rightarrow> real option" where
  "threshold_of sv cfg setting =
     (case setting of
        None \<Rightarrow> Some (SIMILARITY_THRESHOLD cfg)
      | Some v \<Rightarrow> if v = [] then Some (SIMILARITY_THRESHOLD cfg) else parseFloat sv v)"

definition maxDocs_of :: "services \<Rightarrow> config \<Rightarrow> string option \<Rightarrow> int option" where
  "maxDocs_of sv cfg setting =
     (case setting of
        None \<Rightarrow> Some (MAX_SIMILAR_DOCUMENTS cfg)
      | Some v \<Rightarrow> if v = [] then Some (MAX_SIMILAR_DOCUMENTS cfg) else parseInt sv v)"

definition no_result :: rag_result where
  "no_result =
     \<lparr>isFromRAG = False, aiSummary = None, similarDocuments = [], exactMatch = None,
      matchedDocument = None, bestMatch = None, fileHash = None, result_embedding = None,
      needsAiGeneration = False, newDocumentId = None, error = None\<rparr>"

text \<open>The \<open>catch\<close> block of \<open>processDocumentWithRAG\<close>.\<close>

definition fallback :: "string option \<Rightarrow> js_error \<Rightarrow> rag_result" where
  "fallback aiSummary0 e = no_result\<lparr>aiSummary := aiSummary0, error := Some (message e)\<rparr>"

definition similar_summary :: "similarity \<Rightarrow> string" where
  "similar_summary m = ''[Similar to: '' @ sim_filename m @ '']'' @ [CHR 10, CHR 10] @ sim_ai_summary m"

definition document_of ::
  "config \<Rightarrow> upload \<Rightarrow> string \<Rightarrow> string \<Rightarrow> string \<Rightarrow> real list \<Rightarrow> new_document" where
  "document_of cfg file h text summary emb =
     \<lparr>filename = originalname file, file_hash = h, file_size = fsize file,
      mime_type = mimetype file, extracted_text = text, ai_summary = summary,
      embedding = JArray emb, embedding_model = EMBEDDING_MODEL cfg\<rparr>"

text \<open>Steps 5 and 6: reuse the best match, ask for a summary, or store the new document.\<close>

definition decide ::
  "services \<Rightarrow> config \<Rightarrow> upload \<Rightarrow> string \<Rightarrow> string option \<Rightarrow> string \<Rightarrow> real list \<Rightarrow>
   real option \<Rightarrow> similarity list \<Rightarrow> state \<Rightarrow> rag_result \<times> state" where
  "decide sv cfg file text aiSummary0 h emb threshold similarDocs s =
     (let highestSimilarity = (case similarDocs of [] \<Rightarrow> 0 | m # _ \<Rightarrow> similarity_score m);
          useExistingSummary = js_ge highestSimilarity threshold
      in case (useExistingSummary, similarDocs) of
           (True, m # _) \<Rightarrow>
             (case insertDocument sv (document_of cfg file h text (similar_summary m) emb) s of
                (Inl e, s') \<Rightarrow> (fallback aiSummary0 e, s')
              | (Inr _, s') \<Rightarrow>
                  (no_result\<lparr>isFromRAG := True, aiSummary := Some (sim_ai_summary m),
                     similarDocuments := similarDocs, exactMatch := Some False,
                     bestMatch := Some (sim_filename m, similarity_score m, sim_created_at m)\<rparr>, s'))
         | _ \<Rightarrow>
             (case aiSummary0 of
                None \<Rightarrow>
                  (no_result\<lparr>similarDocuments := similarDocs, exactMatch := Some False,
                     fileHash := Some h, result_embedding := Some emb,
                     needsAiGeneration := True\<rparr>, s)
              | Some summary \<Rightarrow>
                  (case insertDocument sv (document_of cfg file h text summary emb) s of
                     (Inl e, s') \<Rightarrow> (fallback aiSummary0 e, s')
                   | (Inr documentId, s') \<Rightarrow>
                       (no_result\<lparr>aiSummary := Some summary, similarDocuments := similarDocs,
                          exactMatch := Some False, newDocumentId := Some documentId\<rparr>, s'))))"

text \<open>Steps 3 and 4, after the hash lookup has missed.\<close>

definition embed_and_search ::
  "services \<Rightarrow> config \<Rightarrow> upload \<Rightarrow> string \<Rightarrow> string option \<Rightarrow> string \<Rightarrow> state \<Rightarrow>
   rag_result \<times> state" where
  "embed_and_search sv cfg file text aiSummary0 h s =
     (case generateEmbedding sv text s of
        (Inl e, s1) \<Rightarrow> (fallback aiSummary0 e, s1)
      | (Inr emb, s1) \<Rightarrow>
          (case getRagSetting sv ''similarity_threshold'' (commit_concurrent sv AwaitingEmbedding s1) of
             (Inl e, s2) \<Rightarrow> (fallback aiSummary0 e, s2)
           | (Inr thr, s2) \<Rightarrow>
               (case getRagSetting sv ''max_similar_documents'' s2 of
                  (Inl e, s3) \<Rightarrow> (fallback aiSummary0 e, s3)
                | (Inr mx, s3) \<Rightarrow>
                    (case findSimilarDocuments sv (JArray emb) (threshold_of sv cfg thr)
                            (maxDocs_of sv cfg mx) s3 of
                       (similarDocs, s4) \<Rightarrow>
                         decide sv cfg file text aiSummary0 h emb (threshold_of sv cfg thr)
                           similarDocs (commit_concurrent sv AwaitingInsert s4)))))"

definition processDocumentWithRAG ::
  "services \<Rightarrow> config \<Rightarrow> upload \<Rightarrow> string \<Rightarrow> string option \<Rightarrow> state \<Rightarrow> rag_result \<times> state" where
  "processDocumentWithRAG sv cfg file text aiSummary0 s =
     (if RAG_ENABLED cfg then
        (let h = generateFileHash sv (buffer file) in
         case getDocumentByHash sv h s of
           (Inl e, s1) \<Rightarrow> (fallback aiSummary0 e, s1)
         | (Inr (Some existingDoc), s1) \<Rightarrow>
             (no_result\<lparr>isFromRAG := True, aiSummary := Some (ai_summary existingDoc),
                exactMatch := Some True,
                matchedDocument :=
                  Some (doc_id existingDoc, filename existingDoc, created_at existingDoc)\<rparr>, s1)
         | (Inr None, s1) \<Rightarrow> embed_and_search sv cfg file text aiSummary0 h s1)
      else (no_result\<lparr>aiSummary := aiSummary0\<rparr>, s))"

section \<open>server.js: the summarising branch of \<open>/analyze\<close>\<close>

definition summarizeLongText :: "services \<Rightarrow> string \<Rightarrow> state \<Rightarrow> (js_error + string) \<times> state" where
  "summarizeLongText sv text s =
     (let s' = record_event (Called_summarizeLongText text) s in
      case generation_service sv text of
        None \<Rightarrow> throw GenerationFailed s'
      | Some r \<Rightarrow> (Inr r, s'))"

text \<open>From \<open>RAG PROCESSING\<close> to the value of \<open>aiResponse\<close>, for a PDF whose text has been
  extracted; \<open>Inl\<close> is the handler's status 500.\<close>

definition analyze_pdf ::
  "services \<Rightarrow> config \<Rightarrow> upload \<Rightarrow> string \<Rightarrow> state \<Rightarrow> (js_error + string \<times> rag_result) \<times> state" where
  "analyze_pdf sv cfg file text s =
     (if RAG_ENABLED cfg then
        (case summarizeLongText sv text s of
           (Inl ragError, s1) \<Rightarrow>
             (case summarizeLongText sv text s1 of
                (Inl e, s2) \<Rightarrow> (Inl e, s2)
              | (Inr aiResponse, s2) \<Rightarrow>
                  (Inr (aiResponse,
                     no_result\<lparr>aiSummary := Some aiResponse, exactMatch := Some False,
                       error := Some (message ragError)\<rparr>), s2))
         | (Inr newAiSummary, s1) \<Rightarrow>
             (case processDocumentWithRAG sv cfg file text (Some newAiSummary) s1 of
                (ragResult, s2) \<Rightarrow>
                  if isFromRAG ragResult then
                    (case aiSummary ragResult of
                       None \<Rightarrow> throw TypeError s2
                     | Some aiResponse \<Rightarrow> (Inr (aiResponse, ragResult), s2))
                  else (Inr (newAiSummary, ragResult), s2)))
      else
        (case summarizeLongText sv text s of
           (Inl e, s1) \<Rightarrow> (Inl e, s1)
         | (Inr aiResponse, s1) \<Rightarrow>
             (Inr (aiResponse, no_result\<lparr>aiSummary := Some aiResponse, exactMatch := Some False\<rparr>), s1)))"

section \<open>Observations\<close>

text \<open>The order in which the results are ranked: by score, and among equal scores the
  more recent record first.\<close>

definition ranked :: "similarity \<Rightarrow> similarity \<Rightarrow> bool" where
  "ranked a b =
     (similarity_score b < similarity_score a \<or>
      (similarity_score a = similarity_score b \<and> sim_created_at b \<le> sim_created_at a))"

text \<open>What a trace records: the rows the request inserted itself, all rows that reached the
  table, the hashes looked up, the exceptions, and the calls to the two services.\<close>

fun inserted_rows :: "event list \<Rightarrow> document list" where
  "inserted_rows [] = []"
| "inserted_rows (Inserted d # es) = d # inserted_rows es"
| "inserted_rows (_ # es) = inserted_rows es"

fun committed_rows :: "event list \<Rightarrow> document list" where
  "committed_rows [] = []"
| "committed_rows (Inserted d # es) = d # committed_rows es"
| "committed_rows (Committed_by_other d # es) = d # committed_rows es"
| "committed_rows (_ # es) = committed_rows es"

fun lookups :: "event list \<Rightarrow> string list" where
  "lookups [] = []"
| "lookups (Called_getDocumentByHash h # es) = h # lookups es"
| "lookups (_ # es) = lookups es"

fun thrown :: "event list \<Rightarrow> js_error list" where
  "thrown [] = []"
| "thrown (Threw e # es) = e # thrown es"
| "thrown (_ # es) = thrown es"

fun embedding_calls :: "event list \<Rightarrow> string list" where
  "embedding_calls [] = []"
| "embedding_calls (Called_generateEmbedding t # es) = t # embedding_calls es"
| "embedding_calls (_ # es) = embedding_calls es"

fun generation_calls :: "event list \<Rightarrow> string list" where
  "generation_calls [] = []"
| "generation_calls (Called_summarizeLongText t # es) = t # generation_calls es"
| "generation_calls (_ # es) = generation_calls es"

text \<open>The events between two states of one request.\<close>

definition events_since :: "state \<Rightarrow> state \<Rightarrow> event list" where
  "events_since s s' = drop (length (trace s)) (trace s')"

text \<open>The rows that other requests commit at a suspension point.\<close>

definition new_rows :: "services \<Rightarrow> await_point \<Rightarrow> state \<Rightarrow> document list" where
  "new_rows sv p s = drop (length (documents s)) (documents (commit_concurrent sv p s))"

text \<open>What holds of a result \<open>r\<close> and the events \<open>E\<close> of the call that returned it: at most
  one insert, and which returns go with one; a thrown exception leaves the caller's summary;
  a rejected duplicate is not retried. \<open>effect\<close> puts them together with the change of
  the state.\<close>

definition one_insert :: "config \<Rightarrow> rag_result \<Rightarrow> event list \<Rightarrow> bool" where
  "one_insert cfg r E =
     (length (inserted_rows E) \<le> 1 \<and>
      (bestMatch r \<noteq> None \<longrightarrow> length (inserted_rows E) = 1) \<and>
      (newDocumentId r \<noteq> None \<longrightarrow> length (inserted_rows E) = 1) \<and>
      (exactMatch r = Some True \<longrightarrow> inserted_rows E = []) \<and>
      (\<not> RAG_ENABLED cfg \<longrightarrow> inserted_rows E = []) \<and>
      (needsAiGeneration r \<longrightarrow> inserted_rows E = []) \<and>
      (error r \<noteq> None \<longrightarrow> inserted_rows E = []))"

definition degraded :: "string option \<Rightarrow> rag_result \<Rightarrow> event list \<Rightarrow> bool" where
  "degraded ai r E =
     ((thrown E \<noteq> [] \<longrightarrow> \<not> isFromRAG r \<and> aiSummary r = ai) \<and>
      (isFromRAG r \<longrightarrow> aiSummary r \<noteq> None))"

definition no_retry :: "string option \<Rightarrow> string \<Rightarrow> rag_result \<Rightarrow> state \<Rightarrow> event list \<Rightarrow> bool" where
  "no_retry ai h r s' E =
     (ER_DUP_ENTRY \<in> set (thrown E) \<longrightarrow> r = fallback ai ER_DUP_ENTRY \<and> hash_taken h s')"

definition effect ::
  "config \<Rightarrow> string option \<Rightarrow> string \<Rightarrow> string list \<Rightarrow> state \<Rightarrow> rag_result \<Rightarrow> state \<Rightarrow> event list \<Rightarrow> bool" where
  "effect cfg ai h L s r s' E =
     (trace s' = trace s @ E \<and> documents s' = documents s @ committed_rows E \<and>
      lookups E = L \<and> one_insert cfg r E \<and> degraded ai r E \<and> no_retry ai h r s' E)"

section \<open>Example data\<close>

definition sv0 :: services where
  "sv0 =
     \<lparr>sha256 = (\<lambda>b. ''sha:'' @ b),
      embedding_service =
        (\<lambda>t. if t = ''alpha'' then Some [1, 0]
             else if t = ''beta'' then Some [3 / 5, 4 / 5]
             else if t = ''gamma'' then Some [0, 1]
             else None),
      generation_service = (\<lambda>t. Some (''Summary of '' @ t)),
      parseFloat = (\<lambda>v. if v = ''0.85'' then Some (85 / 100) else None),
      parseInt = (\<lambda>v. if v = ''5'' then Some 5 else None),
      db_fails = (\<lambda>c. False),
      concurrent = (\<lambda>p. [])\<rparr>"

definition cfg0 :: config where
  "cfg0 =
     \<lparr>RAG_ENABLED = True, SIMILARITY_THRESHOLD = 85 / 100, MAX_SIMILAR_DOCUMENTS = 5,
      EMBEDDING_MODEL = ''nomic-embed-text''\<rparr>"

definition docA :: document where
  "docA =
     \<lparr>filename = ''a.pdf'', file_hash = ''sha:AAA'', file_size = 3,
      mime_type = ''application/pdf'', extracted_text = ''alpha'',
      ai_summary = ''Stored summary A'', embedding = JArray [1, 0],
      embedding_model = ''nomic-embed-text'', doc_id = 1, created_at = 100\<rparr>"

definition docB :: document where
  "docB =
     \<lparr>filename = ''b.pdf'', file_hash = ''sha:BBB'', file_size = 3,
      mime_type = ''application/pdf'', extracted_text = ''beta'',
      ai_summary = ''Stored summary B'', embedding = JArray [3 / 5, 4 / 5],
      embedding_model = ''nomic-embed-text'', doc_id = 2, created_at = 200\<rparr>"

definition docC :: document where
  "docC =
     \<lparr>filename = ''c.pdf'', file_hash = ''sha:CCC'', file_size = 3,
      mime_type = ''application/pdf'', extracted_text = ''other'',
      ai_summary = ''Stored summary C'', embedding = JArray [1],
      embedding_model = ''tiny-embed'', doc_id = 3, created_at = 300\<rparr>"

definition store0 :: state where
  "store0 =
     \<lparr>documents = [docA, docB, docC],
      rag_settings = [(''similarity_threshold'', ''0.85''), (''max_similar_documents'', ''5'')],
      next_id = 4, now = 400, trace = []\<rparr>"

text \<open>A store in which two records have the same embedding, the older one stored first.\<close>

definition docD :: document where
  "docD =
     \<lparr>filename = ''d.pdf'', file_hash = ''sha:DDD'', file_size = 3,
      mime_type = ''application/pdf'', extracted_text = ''beta again'',
      ai_summary = ''Stored summary D'', embedding = JArray [3 / 5, 4 / 5],
      embedding_model = ''nomic-embed-text'', doc_id = 1, created_at = 150\<rparr>"

definition store_tie :: state where
  "store_tie = store0\<lparr>documents := [docD, docB]\<rparr>"

definition uploadA :: upload where
  "uploadA = \<lparr>originalname = ''again.pdf'', buffer = ''AAA'', fsize = 3, mimetype = ''application/pdf''\<rparr>"

definition uploadN :: upload where
  "uploadN = \<lparr>originalname = ''new.pdf'', buffer = ''NNN'', fsize = 3, mimetype = ''application/pdf''\<rparr>"

text \<open>A second upload of the bytes of \<open>uploadN\<close>, committed by another request while this
  one is between its similarity search and its insert.\<close>

definition winner :: new_document where
  "winner =
     \<lparr>filename = ''first.pdf'', file_hash = ''sha:NNN'', file_size = 3,
      mime_type = ''application/pdf'', extracted_text = ''gamma'',
      ai_summary = ''Winner summary'', embedding = JArray [0, 1],
      embedding_model = ''nomic-embed-text''\<rparr>"

definition sv_race :: services where
  "sv_race = sv0\<lparr>concurrent := (\<lambda>p. if p = AwaitingInsert then [winner] else [])\<rparr>"

text \<open>The row that the upload \<open>new.pdf\<close> becomes in \<open>store0\<close>.\<close>

definition row4 :: "string \<Rightarrow> string \<Rightarrow> real list \<Rightarrow> document" where
  "row4 text summary emb =
     \<lparr>filename = ''new.pdf'', file_hash = ''sha:NNN'', file_size = 3,
      mime_type = ''application/pdf'', extracted_text = text, ai_summary = summary,
      embedding = JArray emb, embedding_model = ''nomic-embed-text'', doc_id = 4,
      created_at = 400\<rparr>"

text \<open>An unrelated upload that another request commits while this one is suspended, and its
  row in \<open>store0\<close>; and a database that rejects every insert.\<close>

definition bystander :: new_document where
  "bystander =
     \<lparr>filename = ''other.pdf'', file_hash = ''sha:ZZZ'', file_size = 3,
      mime_type = ''application/pdf'', extracted_text = ''gamma'',
      ai_summary = ''Bystander summary'', embedding = JArray [0, 1],
      embedding_model = ''nomic-embed-text''\<rparr>"

definition sv_busy :: services where
  "sv_busy = sv0\<lparr>concurrent := (\<lambda>p. [bystander])\<rparr>"

definition row_other :: document where
  "row_other =
     \<lparr>filename = ''other.pdf'', file_hash = ''sha:ZZZ'', file_size = 3,
      mime_type = ''application/pdf'', extracted_text = ''gamma'',
      ai_summary = ''Bystander summary'', embedding = JArray [0, 1],
      embedding_model = ''nomic-embed-text'', doc_id = 4, created_at = 400\<rparr>"

definition sv_down :: services where
  "sv_down = sv0\<lparr>db_fails := (\<lambda>c. c = InsertDocument)\<rparr>"

section \<open>Properties of \<open>calculateCosineSimilarity\<close>\<close>

lemma accumulate_sums:
  "length a = length b \<Longrightarrow>
   accumulate a b (d, m1, m2) = (d + dot a b, m1 + dot a a, m2 + dot b b)"
  by (induction a b arbitrary: d m1 m2 rule: list_induct2) (simp_all add: dot_def)

lemma dot_self_nonneg: "0 \<le> dot a a"
  by (induction a) (simp_all add: dot_def)

lemma dot_self_zero_iff: "dot a a = 0 \<longleftrightarrow> (\<forall>x\<in>set a. x = 0)"
proof (induction a)
  case Nil
  show ?case by (simp add: dot_def)
next
  case (Cons x a)
  have "0 \<le> dot a a" by (rule dot_self_nonneg)
  moreover have "0 \<le> x * x" by simp
  ultimately have "x * x + dot a a = 0 \<longleftrightarrow> x * x = 0 \<and> dot a a = 0"
    by (simp add: add_nonneg_eq_0_iff)
  with Cons show ?case by (simp add: dot_def)
qed

lemma cauchy_schwarz_list:
  "length a = length b \<Longrightarrow> (dot a b)\<^sup>2 \<le> dot a a * dot b b"
proof (induction a b rule: list_induct2)
  case Nil
  show ?case by (simp add: dot_def)
next
  case (Cons x xs y ys)
  define A where "A = dot xs xs"
  define B where "B = dot ys ys"
  define C where "C = dot xs ys"
  have A: "0 \<le> A" and B: "0 \<le> B" by (simp_all add: A_def B_def dot_self_nonneg)
  have IH: "C\<^sup>2 \<le> A * B" using Cons.IH by (simp add: A_def B_def C_def)
  have "(2 * C * x * y)\<^sup>2 = 4 * C\<^sup>2 * (x\<^sup>2 * y\<^sup>2)" by (simp add: power2_eq_square)
  also have "\<dots> \<le> 4 * (A * B) * (x\<^sup>2 * y\<^sup>2)"
    using IH by (intro mult_right_mono mult_left_mono) simp_all
  also have "\<dots> \<le> (A * y\<^sup>2 + B * x\<^sup>2)\<^sup>2"
  proof -
    have "0 \<le> (A * y\<^sup>2 - B * x\<^sup>2)\<^sup>2" by simp
    then show ?thesis by (simp add: power2_eq_square algebra_simps)
  qed
  finally have "(2 * C * x * y)\<^sup>2 \<le> (A * y\<^sup>2 + B * x\<^sup>2)\<^sup>2" .
  moreover have "0 \<le> A * y\<^sup>2 + B * x\<^sup>2" using A B by simp
  ultimately have "2 * C * x * y \<le> A * y\<^sup>2 + B * x\<^sup>2"
    by (rule power2_le_imp_le)
  moreover have "dot (x # xs) (y # ys) = x * y + C" "dot (x # xs) (x # xs) = x * x + A"
    "dot (y # ys) (y # ys) = y * y + B"
    by (simp_all add: dot_def A_def B_def C_def)
  ultimately show ?case using IH
    by (simp add: power2_eq_square algebra_simps)
qed

lemma magnitude_zero_iff: "magnitude a = 0 \<longleftrightarrow> (\<forall>x\<in>set a. x = 0)"
  by (simp add: magnitude_def dot_self_zero_iff)

lemma cosine_eq:
  "length a = length b \<Longrightarrow>
   calculateCosineSimilarity (JArray a) (JArray b) =
     (if magnitude a = 0 \<or> magnitude b = 0 then 0 else dot a b / (magnitude a * magnitude b))"
  by (simp add: calculateCosineSimilarity_def accumulate_sums magnitude_def)

lemma abs_dot_le: 
  assumes "length a = length b" shows "\<bar>dot a b\<bar> \<le> magnitude a * magnitude b"
proof -
  have "(dot a b)\<^sup>2 \<le> dot a a * dot b b" by (rule cauchy_schwarz_list[OF assms])
  then have "sqrt ((dot a b)\<^sup>2) \<le> sqrt (dot a a * dot b b)" by (rule real_sqrt_le_mono)
  then show ?thesis by (simp add: magnitude_def real_sqrt_mult)
qed

lemma cosine_bounds:
  assumes "length a = length b"
  shows "\<bar>calculateCosineSimilarity (JArray a) (JArray b)\<bar> \<le> 1"
proof (cases "magnitude a = 0 \<or> magnitude b = 0")
  case True
  then show ?thesis using assms by (simp add: cosine_eq)
next
  case False
  have nn: "0 \<le> magnitude a" "0 \<le> magnitude b" by (simp_all add: magnitude_def dot_self_nonneg)
  with False have pos: "0 < magnitude a * magnitude b" by simp
  have "\<bar>dot a b / (magnitude a * magnitude b)\<bar> = \<bar>dot a b\<bar> / (magnitude a * magnitude b)"
    using pos by simp
  also have "\<dots> \<le> 1" using abs_dot_le[OF assms] pos by simp
  finally show ?thesis using False assms by (simp add: cosine_eq)
qed

lemma cosine_self:
  assumes "\<exists>x\<in>set v. x \<noteq> 0"
  shows "calculateCosineSimilarity (JArray v) (JArray v) = 1"
proof -
  have nz: "dot v v \<noteq> 0" using assms by (simp add: dot_self_zero_iff)
  have "0 \<le> dot v v" by (rule dot_self_nonneg)
  then have "magnitude v * magnitude v = dot v v" by (simp add: magnitude_def)
  then show ?thesis using nz by (simp add: cosine_eq magnitude_def)
qed

lemma sqrt_25: "sqrt 25 = 5"
  using real_sqrt_abs[of 5] by simp

subsection \<open>Rounding\<close>

lemma pow2_powr: "pow2 e = 2 powr (of_int e)"
  by (simp add: pow2_def powr_int)

lemma pow2_pos [simp]: "0 < pow2 e"
  by (simp add: pow2_def)

lemma round_half_even_unique: "\<bar>y - of_int k\<bar> < 1 / 2 \<Longrightarrow> round_half_even y = k"
proof -
  assume a: "\<bar>y - of_int k\<bar> < 1 / 2"
  then have r: "round y = k" by (rule round_unique')
  have "y - of_int \<lfloor>y\<rfloor> \<noteq> 1 / 2"
  proof
    assume h: "y - of_int \<lfloor>y\<rfloor> = 1 / 2"
    define d where "d = \<lfloor>y\<rfloor> - k"
    have "y - of_int k = of_int d + 1 / 2" using h by (simp add: d_def)
    then have "\<bar>real_of_int d + 1 / 2\<bar> < 1 / 2" using a by simp
    then have "- 1 < real_of_int d" "real_of_int d < 0" by linarith+
    then have "- 1 < d" "d < 0" by linarith+
    then show False by linarith
  qed
  with r show ?thesis by (simp add: round_half_even_def)
qed

lemma exponent_eq:
  assumes "- 1022 \<le> e" "pow2 e \<le> \<bar>x\<bar>" "\<bar>x\<bar> < pow2 (e + 1)"
  shows "exponent x = e"
proof -
  have pos: "0 < \<bar>x\<bar>" using assms(2) pow2_pos[of e] by linarith
  have "\<lfloor>log 2 \<bar>x\<bar>\<rfloor> = e"
    using assms(2,3) pos by (subst floor_log_eq_powr_iff) (simp_all add: pow2_powr)
  then show ?thesis using assms(1) by (simp add: exponent_def)
qed

lemma nearest_eq:
  assumes "- 1022 \<le> e" "pow2 e \<le> \<bar>x\<bar>" "\<bar>x\<bar> < pow2 (e + 1)"
    and "\<bar>x / pow2 (e - 52) - of_int k\<bar> < 1 / 2"
  shows "nearest x = of_int k * pow2 (e - 52)"
proof -
  have "0 < \<bar>x\<bar>" using pow2_pos[of e] assms(2) by (rule less_le_trans)
  then have "x \<noteq> 0" by simp
  moreover have "exponent x = e" using assms(1-3) by (rule exponent_eq)
  moreover have "round_half_even (x / pow2 (e - 52)) = k"
    using assms(4) by (rule round_half_even_unique)
  ultimately show ?thesis by (simp add: nearest_def)
qed

lemma fl_one: "fl 1 = Finite 1"
proof -
  have "nearest 1 = of_int (2 ^ 52) * pow2 (0 - 52)"
    by (rule nearest_eq) (simp_all add: pow2_def)
  then show ?thesis by (simp add: fl_def pow2_def)
qed

lemma fl_two: "fl 2 = Finite 2"
proof -
  have "nearest 2 = of_int (2 ^ 52) * pow2 (1 - 52)"
    by (rule nearest_eq) (simp_all add: pow2_def)
  then show ?thesis by (simp add: fl_def pow2_def)
qed

lemma fl_three: "fl 3 = Finite 3"
proof -
  have "nearest 3 = of_int (3 * 2 ^ 51) * pow2 (1 - 52)"
    by (rule nearest_eq) (simp_all add: pow2_def)
  then show ?thesis by (simp add: fl_def pow2_def)
qed

lemma fl_zero: "fl 0 = Finite 0"
  by (simp add: fl_def nearest_def)


lemma fl_sqrt_three: "fl (sqrt 3) = Finite (7800463371553962 / 2 ^ 52)"
proof -
  have lo: "(7800463371553962 - 1 / 2) / 2 ^ 52 < sqrt 3"
    by (rule real_less_rsqrt) (simp add: power2_eq_square)
  have hi: "sqrt 3 < (7800463371553962 + 1 / 2) / 2 ^ 52"
    by (rule real_less_lsqrt) (simp_all add: power2_eq_square)
  have one: "1 \<le> sqrt 3" by simp
  have two: "sqrt 3 < 2" by (rule real_less_lsqrt) simp_all
  have "nearest (sqrt 3) = of_int 7800463371553962 * pow2 (0 - 52)"
  proof (rule nearest_eq)
    show "- 1022 \<le> (0 :: int)" by simp
    show "pow2 0 \<le> \<bar>sqrt 3\<bar>" using one by (simp add: pow2_def)
    show "\<bar>sqrt 3\<bar> < pow2 (0 + 1)" using two by (simp add: pow2_def)
    have "sqrt 3 * 2 ^ 52 - 7800463371553962 < 1 / 2" "- (1 / 2) < sqrt 3 * 2 ^ 52 - 7800463371553962"
      using lo hi by (simp_all add: field_simps)
    then have "\<bar>sqrt 3 * 2 ^ 52 - 7800463371553962\<bar> < 1 / 2" by linarith
    then show "\<bar>sqrt 3 / pow2 (0 - 52) - of_int 7800463371553962\<bar> < 1 / 2"
      by (simp add: pow2_def)
  qed
  then show ?thesis by (simp add: fl_def pow2_def)
qed

lemma fl_square: 
  "fl (7800463371553962 / 2 ^ 52 * (7800463371553962 / 2 ^ 52)) = Finite (6755399441055743 / 2 ^ 51)"
proof -
  have "nearest (7800463371553962 / 2 ^ 52 * (7800463371553962 / 2 ^ 52)) =
      of_int 6755399441055743 * pow2 (1 - 52)"
    by (rule nearest_eq) (simp_all add: pow2_def abs_less_iff)
  then show ?thesis by (simp add: fl_def pow2_def)
qed

lemma fl_quotient: "fl (3 / (6755399441055743 / 2 ^ 51)) = Finite (4503599627370497 / 2 ^ 52)"
proof -
  have "nearest (3 / (6755399441055743 / 2 ^ 51)) = of_int 4503599627370497 * pow2 (0 - 52)"
    by (rule nearest_eq) (simp_all add: pow2_def abs_less_iff)
  then show ?thesis by (simp add: fl_def pow2_def)
qed


lemma self_similarity_above_one:
  "calculateCosineSimilarity_double [Finite 1, Finite 1, Finite 1] [Finite 1, Finite 1, Finite 1] =
     Finite (1 + 1 / 2 ^ 52)"
proof -
  define root where "root = (7800463371553962 / 2 ^ 52 :: real)"
  define square where "square = (6755399441055743 / 2 ^ 51 :: real)"
  have acc: "accumulate_double [Finite 1, Finite 1, Finite 1] [Finite 1, Finite 1, Finite 1]
      (Finite 0, Finite 0, Finite 0) = (Finite 3, Finite 3, Finite 3)"
    by (simp add: fl_zero fl_one fl_two fl_three)
  have root: "fl (sqrt 3) = Finite root"
    by (simp add: fl_sqrt_three root_def)
  have square: "fl (root * root) = Finite square"
    unfolding root_def square_def by (rule fl_square)
  have nz: "square \<noteq> 0" by (simp add: square_def)
  have "fl (3 / square) = Finite (4503599627370497 / 2 ^ 52)"
    unfolding square_def by (rule fl_quotient)
  then have quotient: "fl (3 / square) = Finite (1 + 1 / 2 ^ 52)" by simp
  show ?thesis
    by (simp only: calculateCosineSimilarity_double_def acc) (simp add: root square quotient nz)
qed

lemma pow2_nonneg [simp]: "0 \<le> pow2 e"
  by (simp add: pow2_def)

lemma pow2_le_pos: "pow2 n \<le> x \<Longrightarrow> 0 < x"
  using pow2_pos[of n] by (rule less_le_trans)

lemma pow2_add: "pow2 (a + b) = pow2 a * pow2 b"
  by (simp add: pow2_powr powr_add)

lemma pow2_mono: "a \<le> b \<Longrightarrow> pow2 a \<le> pow2 b"
  by (simp add: pow2_powr)

lemma pow2_nonneg_int: "0 \<le> n \<Longrightarrow> pow2 n = of_int (2 ^ nat n)"
  by (simp add: pow2_def)

lemma round_half_even_ge: "of_int K \<le> y \<Longrightarrow> K \<le> round_half_even y"
proof -
  assume a: "of_int K \<le> y"
  then have f: "K \<le> \<lfloor>y\<rfloor>" by (simp add: le_floor_iff)
  have "\<lfloor>y\<rfloor> \<le> round y" by (simp add: round_def floor_mono)
  with f show ?thesis by (simp add: round_half_even_def)
qed

lemma nearest_form:
  "nearest x = of_int (round_half_even (x / pow2 (exponent x - 52))) * pow2 (exponent x - 52)"
  by (simp add: nearest_def round_half_even_def)

lemma exponent_ge: "- 1022 \<le> exponent x"
  by (simp add: exponent_def)

lemma nearest_ge_pow2:
  assumes "- 1074 \<le> n" "pow2 n \<le> x"
  shows "pow2 n \<le> nearest x"
proof -
  let ?e = "exponent x"
  let ?u = "pow2 (?e - 52)"
  have xpos: "0 < x" using assms(2) by (rule pow2_le_pos)
  show ?thesis
  proof (cases "?e - 52 \<le> n")
    case True
    define K :: int where "K = 2 ^ nat (n - (?e - 52))"
    have "pow2 n = pow2 (n - (?e - 52)) * ?u" using pow2_add[of "n - (?e - 52)" "?e - 52"] by simp
    also have "pow2 (n - (?e - 52)) = of_int K" using True by (simp add: pow2_nonneg_int K_def)
    finally have pn: "pow2 n = of_int K * ?u" .
    then have "of_int K \<le> x / ?u" using assms(2) by (simp add: pos_le_divide_eq)
    then have "K \<le> round_half_even (x / ?u)" by (rule round_half_even_ge)
    then have "of_int K * ?u \<le> of_int (round_half_even (x / ?u)) * ?u"
      by (simp add: mult_right_mono)
    then show ?thesis using pn by (simp add: nearest_form)
  next
    case False
    then have big: "- 1022 < ?e" using assms(1) by linarith
    then have "?e = \<lfloor>log 2 \<bar>x\<bar>\<rfloor>" by (simp add: exponent_def max_def split: if_splits)
    then have "pow2 ?e \<le> x"
      using xpos floor_log_eq_powr_iff[of x 2 ?e] by (simp add: pow2_powr)
    moreover have "pow2 ?e = of_int (2 ^ 52) * ?u" using pow2_add[of 52 "?e - 52"] by (simp add: pow2_def)
    ultimately have "of_int (2 ^ 52) \<le> x / ?u" by (simp add: pos_le_divide_eq)
    then have "2 ^ 52 \<le> round_half_even (x / ?u)" by (rule round_half_even_ge)
    then have "of_int (2 ^ 52) * ?u \<le> of_int (round_half_even (x / ?u)) * ?u"
      by (intro mult_right_mono) (simp_all add: less_imp_le)
    then have "pow2 ?e \<le> nearest x"
      using \<open>pow2 ?e = of_int (2 ^ 52) * ?u\<close> by (simp add: nearest_form)
    moreover have "pow2 n \<le> pow2 ?e" using False by (intro pow2_mono) linarith
    ultimately show ?thesis by linarith
  qed
qed

lemma nearest_nonneg: "0 \<le> x \<Longrightarrow> 0 \<le> nearest x"
proof -
  assume "0 \<le> x"
  then have "of_int 0 \<le> x / pow2 (exponent x - 52)" by (simp add: divide_nonneg_nonneg)
  then have "0 \<le> round_half_even (x / pow2 (exponent x - 52))" by (rule round_half_even_ge)
  then show ?thesis by (simp add: nearest_form)
qed

lemma nearest_grid: "nearest x = 0 \<or> pow2 (- 1074) \<le> \<bar>nearest x\<bar>"
proof (cases "round_half_even (x / pow2 (exponent x - 52)) = 0")
  case True
  then show ?thesis by (simp add: nearest_form)
next
  case False
  then have "1 \<le> \<bar>round_half_even (x / pow2 (exponent x - 52))\<bar>" by linarith
  then have "1 \<le> \<bar>real_of_int (round_half_even (x / pow2 (exponent x - 52)))\<bar>"
    by linarith
  then have "1 * pow2 (exponent x - 52) \<le>
      \<bar>real_of_int (round_half_even (x / pow2 (exponent x - 52)))\<bar> * pow2 (exponent x - 52)"
    by (intro mult_right_mono) simp_all
  then have A: "pow2 (exponent x - 52) \<le>
      \<bar>real_of_int (round_half_even (x / pow2 (exponent x - 52)))\<bar> * pow2 (exponent x - 52)"
    by simp
  have B: "pow2 (- 1074) \<le> pow2 (exponent x - 52)"
    using exponent_ge[of x] by (intro pow2_mono) linarith
  have "\<bar>nearest x\<bar> =
      \<bar>real_of_int (round_half_even (x / pow2 (exponent x - 52)))\<bar> * pow2 (exponent x - 52)"
    by (simp add: nearest_form abs_mult)
  with A B have "pow2 (- 1074) \<le> \<bar>nearest x\<bar>" by linarith
  then show ?thesis by blast
qed

lemma fl_nonneg_value: "0 \<le> x \<Longrightarrow> magnitude_value (fl x)"
proof -
  assume x: "0 \<le> x"
  then have "0 \<le> nearest x" by (rule nearest_nonneg)
  moreover have "nearest x = 0 \<or> pow2 (- 1074) \<le> \<bar>nearest x\<bar>" by (rule nearest_grid)
  moreover have "0 < x" if "2 ^ 1024 \<le> \<bar>nearest x\<bar>"
  proof (rule ccontr)
    assume "\<not> 0 < x"
    with x have "x = 0" by simp
    with that show False by (simp add: nearest_def)
  qed
  ultimately show ?thesis by (auto simp: fl_def magnitude_value_def)
qed

lemma square_value: "magnitude_value (times_double x x)"
proof (cases x)
  case (Finite v)
  have "magnitude_value (fl (v * v))" by (rule fl_nonneg_value) simp
  then show ?thesis using Finite by simp
qed (simp_all add: magnitude_value_def)

lemma plus_value:
  "magnitude_value m \<Longrightarrow> magnitude_value p \<Longrightarrow> magnitude_value (plus_double m p)"
proof (cases m; cases p)
  fix u v assume "m = Finite u" "p = Finite v" "magnitude_value m" "magnitude_value p"
  then have "0 \<le> u" "0 \<le> v"
    using pow2_le_pos[of "- 1074" u] pow2_le_pos[of "- 1074" v]
    by (auto simp: magnitude_value_def)
  then have "0 \<le> u + v" by simp
  then show ?thesis using \<open>m = Finite u\<close> \<open>p = Finite v\<close> by (simp add: fl_nonneg_value)
qed (auto simp: magnitude_value_def)

lemma accumulate_double_values:
  "magnitude_value m1 \<Longrightarrow> magnitude_value m2 \<Longrightarrow>
   accumulate_double a b (d, m1, m2) = (d', m1', m2') \<Longrightarrow>
   magnitude_value m1' \<and> magnitude_value m2'"
proof (induction a b "(d, m1, m2)" arbitrary: d m1 m2 rule: accumulate_double.induct)
  case (1 x xs y ys dotProduct magnitude1 magnitude2)
  have "magnitude_value (plus_double magnitude1 (times_double x x))"
    "magnitude_value (plus_double magnitude2 (times_double y y))"
    using 1(2,3) by (simp_all add: plus_value square_value)
  then show ?case using 1(1) 1(4) by simp
qed simp_all

lemma sqrt_value:
  assumes "magnitude_value m" "m \<noteq> Finite 0"
  shows "case sqrt_double m of Finite w \<Rightarrow> pow2 (- 537) \<le> w | Infinity s \<Rightarrow> s | NaN \<Rightarrow> True"
proof (cases m)
  case (Finite v)
  then have v: "pow2 (- 1074) \<le> v" using assms by (simp add: magnitude_value_def)
  have "pow2 (- 1074) = pow2 (- 537) * pow2 (- 537)" using pow2_add[of "- 537" "- 537"] by simp
  then have "(pow2 (- 537))\<^sup>2 \<le> v" using v by (simp add: power2_eq_square)
  then have "pow2 (- 537) \<le> sqrt v" by (rule real_le_rsqrt)
  then have n: "pow2 (- 537) \<le> nearest (sqrt v)" by (intro nearest_ge_pow2) simp_all
  have "0 < v" using v by (rule pow2_le_pos)
  then show ?thesis using Finite n by (simp add: fl_def)
next
  case (Infinity s)
  then show ?thesis using assms by (simp add: magnitude_value_def)
next
  case NaN
  then show ?thesis by simp
qed

lemma denominator_not_zero:
  assumes "magnitude_value m1" "magnitude_value m2" "m1 \<noteq> Finite 0" "m2 \<noteq> Finite 0"
  shows "times_double (sqrt_double m1) (sqrt_double m2) \<noteq> Finite 0"
proof -
  have 1: "case sqrt_double m1 of Finite w \<Rightarrow> pow2 (- 537) \<le> w | Infinity s \<Rightarrow> s | NaN \<Rightarrow> True"
    using assms(1,3) by (rule sqrt_value)
  have 2: "case sqrt_double m2 of Finite w \<Rightarrow> pow2 (- 537) \<le> w | Infinity s \<Rightarrow> s | NaN \<Rightarrow> True"
    using assms(2,4) by (rule sqrt_value)
  show ?thesis
  proof (cases "sqrt_double m1"; cases "sqrt_double m2")
    fix w1 w2 assume w: "sqrt_double m1 = Finite w1" "sqrt_double m2 = Finite w2"
    then have b: "pow2 (- 537) \<le> w1" "pow2 (- 537) \<le> w2" using 1 2 by simp_all
    have "pow2 (- 1074) = pow2 (- 537) * pow2 (- 537)" using pow2_add[of "- 537" "- 537"] by simp
    also have "\<dots> \<le> w1 * w2"
      using b pow2_le_pos[of "- 537" w1] by (intro mult_mono) (simp_all add: less_imp_le)
    finally have "pow2 (- 1074) \<le> nearest (w1 * w2)" by (intro nearest_ge_pow2) simp_all
    then have "0 < nearest (w1 * w2)" by (rule pow2_le_pos)
    then show ?thesis using w by (simp add: fl_def)
  next
    fix w1 s assume w: "sqrt_double m1 = Finite w1" "sqrt_double m2 = Infinity s"
    then have "0 < w1" using 1 pow2_le_pos[of "- 537" w1] by simp
    then show ?thesis using w by simp
  next
    fix s w2 assume w: "sqrt_double m1 = Infinity s" "sqrt_double m2 = Finite w2"
    then have "0 < w2" using 2 pow2_le_pos[of "- 537" w2] by simp
    then show ?thesis using w by simp
  qed simp_all
qed

lemma divisor_not_zero: "divides_double a b \<Longrightarrow> divisor_double a b \<noteq> Finite 0"
proof -
  assume d: "divides_double a b"
  obtain dp m1 m2 where acc: "accumulate_double a b (Finite 0, Finite 0, Finite 0) = (dp, m1, m2)"
    by (cases "accumulate_double a b (Finite 0, Finite 0, Finite 0)") auto
  have z: "magnitude_value (Finite 0)" by (simp add: magnitude_value_def)
  have "magnitude_value m1 \<and> magnitude_value m2"
    using z z acc by (rule accumulate_double_values)
  moreover have "m1 \<noteq> Finite 0" "m2 \<noteq> Finite 0" using d acc by (simp_all add: divides_double_def)
  ultimately have "times_double (sqrt_double m1) (sqrt_double m2) \<noteq> Finite 0"
    by (simp add: denominator_not_zero)
  then show ?thesis by (simp add: divisor_double_def acc)
qed

lemma accumulate_double_zero_left:
  "\<forall>v\<in>set a. v = Finite 0 \<Longrightarrow>
   fst (snd (accumulate_double a b (d, Finite 0, m2))) = Finite 0"
proof (induction a b "(d, Finite 0, m2)" arbitrary: d m2 rule: accumulate_double.induct)
  case (1 x xs y ys dotProduct magnitude2)
  then have "x = Finite 0" by simp
  then have "plus_double (Finite 0) (times_double x x) = Finite 0" by (simp add: fl_zero)
  then show ?case using 1 by simp
qed simp_all

lemma accumulate_double_zero_right:
  "\<forall>v\<in>set b. v = Finite 0 \<Longrightarrow>
   snd (snd (accumulate_double a b (d, m1, Finite 0))) = Finite 0"
proof (induction a b "(d, m1, Finite 0)" arbitrary: d m1 rule: accumulate_double.induct)
  case (1 x xs y ys dotProduct magnitude1)
  then have "y = Finite 0" by simp
  then have "plus_double (Finite 0) (times_double y y) = Finite 0" by (simp add: fl_zero)
  then show ?case using 1 by simp
qed simp_all

lemma zero_vector_double:
  assumes "(\<forall>v\<in>set a. v = Finite 0) \<or> (\<forall>v\<in>set b. v = Finite 0)"
  shows "calculateCosineSimilarity_double a b = Finite 0"
proof -
  obtain dp m1 m2 where acc: "accumulate_double a b (Finite 0, Finite 0, Finite 0) = (dp, m1, m2)"
    by (cases "accumulate_double a b (Finite 0, Finite 0, Finite 0)") auto
  have "m1 = Finite 0 \<or> m2 = Finite 0"
    using assms accumulate_double_zero_left[of a b "Finite 0" "Finite 0"]
      accumulate_double_zero_right[of b a "Finite 0" "Finite 0"] acc
    by auto
  then show ?thesis by (auto simp: calculateCosineSimilarity_double_def acc)
qed

lemma exponent_pow2: "exponent (pow2 n) = max n (- 1022)"
  by (simp add: exponent_def pow2_powr)

lemma fl_overflow:
  assumes "h = pow2 600"
  shows "fl (h * h) = Infinity True"
proof -
  have hh: "h * h = pow2 1200" using pow2_add[of 600 600] assms by simp
  have "nearest (pow2 1200) = of_int (2 ^ 52) * pow2 (1200 - 52)"
    by (rule nearest_eq) (simp_all add: pow2_def)
  then have "nearest (h * h) = pow2 1200" using pow2_add[of 52 1148] hh by (simp add: pow2_def)
  moreover have "(2 :: real) ^ 1024 \<le> pow2 1200" using pow2_mono[of 1024 1200] by (simp add: pow2_def)
  ultimately show ?thesis using hh by (simp add: fl_def)
qed

lemma fl_underflow:
  assumes "t = pow2 (- 600)"
  shows "fl (t * t) = Finite 0"
proof -
  have tt: "t * t = pow2 (- 1200)" using pow2_add[of "- 600" "- 600"] assms by simp
  have e: "exponent (pow2 (- 1200)) = - 1022" by (simp add: exponent_pow2)
  have "pow2 (- 1200) = pow2 (- 126) * pow2 (- 1074)" using pow2_add[of "- 126" "- 1074"] by simp
  moreover have "pow2 (- 1074) \<noteq> 0" using pow2_pos[of "- 1074"] by linarith
  ultimately have q: "pow2 (- 1200) / pow2 (- 1074) = pow2 (- 126)" by simp
  have "round_half_even (pow2 (- 126)) = 0"
    by (rule round_half_even_unique) (simp add: pow2_def)
  then have "nearest (pow2 (- 1200)) = 0" by (simp add: nearest_def e q)
  then show ?thesis using tt by (simp add: fl_def)
qed

lemma pow2_neq_zero [simp]: "pow2 e \<noteq> 0"
  using pow2_pos[of e] by linarith

lemma fl_normal_exact:
  assumes "- 1022 \<le> e" "e < 1024" "2 ^ 52 \<le> k" "k < 2 ^ 53"
  shows "fl (of_int k * pow2 (e - 52)) = Finite (of_int k * pow2 (e - 52))"
proof -
  let ?u = "pow2 (e - 52)"
  let ?x = "of_int k * ?u"
  have u: "0 < ?u" by simp
  have "(0 :: int) \<le> 2 ^ 52" by simp
  then have "0 \<le> k" using assms(3) by (rule order_trans)
  then have kpos: "0 \<le> real_of_int k" by simp
  have ax: "\<bar>?x\<bar> = ?x" using kpos by simp
  have p52: "pow2 52 = real_of_int (2 ^ 52)" and p53: "pow2 53 = real_of_int (2 ^ 53)"
    by (simp_all add: pow2_def)
  have lo: "pow2 e = of_int (2 ^ 52) * ?u"
    unfolding p52[symmetric] using pow2_add[of 52 "e - 52"] by simp
  have hi: "pow2 (e + 1) = of_int (2 ^ 53) * ?u"
    unfolding p53[symmetric] using pow2_add[of 53 "e - 52"] by (simp add: add.commute)
  have k1: "real_of_int (2 ^ 52) \<le> real_of_int k" using assms(3) by (simp only: of_int_le_iff)
  have k2: "real_of_int k < real_of_int (2 ^ 53)" using assms(4) by (simp only: of_int_less_iff)
  have 1: "pow2 e \<le> \<bar>?x\<bar>" unfolding ax lo using k1 by (intro mult_right_mono) simp_all
  have 2: "\<bar>?x\<bar> < pow2 (e + 1)" unfolding ax hi using k2 u by (intro mult_strict_right_mono)
  have "?u \<noteq> 0" using u by linarith
  then have "?x / ?u = of_int k" by simp
  then have 3: "\<bar>?x / ?u - of_int k\<bar> < 1 / 2" by (simp only: diff_self abs_zero)
  have n: "nearest ?x = ?x" using assms(1) 1 2 3 by (rule nearest_eq)
  have "pow2 (e + 1) \<le> pow2 1024" using assms(2) by (intro pow2_mono) simp
  then have "\<bar>?x\<bar> < pow2 1024" using 2 by linarith
  then have "\<not> 2 ^ 1024 \<le> \<bar>nearest ?x\<bar>" unfolding n by (simp add: pow2_def)
  then show ?thesis using n by (simp add: fl_def)
qed

lemma exponent_subnormal:
  assumes "x \<noteq> 0" "\<bar>x\<bar> < pow2 (- 1022)"
  shows "exponent x = - 1022"
proof -
  have "0 < \<bar>x\<bar>" using assms(1) by simp
  then have "log 2 \<bar>x\<bar> < of_int (- 1022)"
    using assms(2) by (simp add: pow2_powr log_less_iff del: of_int_minus)
  then have "\<lfloor>log 2 \<bar>x\<bar>\<rfloor> < - 1022" by (simp add: floor_less_iff)
  then show ?thesis by (simp add: exponent_def)
qed

lemma fl_subnormal:
  assumes "x \<noteq> 0" "\<bar>x\<bar> < pow2 (- 1022)" "\<bar>x / pow2 (- 1074) - of_int k\<bar> < 1 / 2"
    and "\<bar>k\<bar> \<le> 1"
  shows "fl x = Finite (of_int k * pow2 (- 1074))"
proof -
  have e: "exponent x = - 1022" using assms(1,2) by (rule exponent_subnormal)
  have "round_half_even (x / pow2 (- 1074)) = k" using assms(3) by (rule round_half_even_unique)
  then have n: "nearest x = of_int k * pow2 (- 1074)" using assms(1) by (simp add: nearest_def e)
  have "\<bar>real_of_int k\<bar> \<le> 1" using assms(4) by linarith
  then have "\<bar>of_int k * pow2 (- 1074)\<bar> \<le> 1 * pow2 (- 1074)"
    unfolding abs_mult by (intro mult_mono) simp_all
  also have "\<dots> \<le> pow2 0" using pow2_mono[of "- 1074" 0] by simp
  finally have "\<bar>of_int k * pow2 (- 1074)\<bar> \<le> 1" by (simp add: pow2_def)
  moreover have "(1 :: real) < 2 ^ 1024" by simp
  ultimately have "\<not> 2 ^ 1024 \<le> \<bar>nearest x\<bar>" unfolding n by linarith
  then show ?thesis using n by (simp add: fl_def)
qed

lemma underflow_above_one:
  assumes "X = 9 * pow2 (- 540)"
  shows "calculateCosineSimilarity_double [Finite X] [Finite 1] = Finite (9 / 8)"
proof -
  define U where "U = pow2 (- 1074)"
  define R where "R = pow2 (- 537)"
  have Xk: "X = of_int (9 * 2 ^ 49) * pow2 (- 537 - 52)"
    using pow2_add[of 49 "- 589"] assms by (simp add: pow2_def)
  have Xpos: "0 < X" using assms by simp
  have flX: "fl X = Finite X" unfolding Xk by (rule fl_normal_exact) simp_all
  have XX: "X * X = 81 / 64 * U"
  proof -
    have "pow2 (- 540) * pow2 (- 540) = pow2 (- 1080)" using pow2_add[of "- 540" "- 540"] by simp
    moreover have "pow2 (- 1080) = pow2 (- 6) * pow2 (- 1074)" using pow2_add[of "- 6" "- 1074"] by simp
    moreover have "pow2 (- 6) = 1 / 64" by (simp add: pow2_def)
    ultimately show ?thesis using assms by (simp add: U_def)
  qed
  have Upos: "0 < U" by (simp add: U_def)
  have Usmall: "U * 64 < pow2 (- 1022)"
  proof -
    have "pow2 (- 1068) = pow2 6 * pow2 (- 1074)" using pow2_add[of 6 "- 1074"] by simp
    moreover have "pow2 6 = 64" by (simp add: pow2_def)
    moreover have "pow2 (- 1068) \<le> pow2 (- 1023)" by (rule pow2_mono) simp
    ultimately have a: "U * 64 \<le> pow2 (- 1023)" by (simp add: U_def)
    have b: "pow2 (- 1022) = 2 * pow2 (- 1023)" using pow2_add[of 1 "- 1023"] by (simp add: pow2_def)
    have c: "0 < pow2 (- 1023)" by simp
    show ?thesis using a b c by linarith
  qed
  have flXX: "fl (X * X) = Finite U"
  proof -
    have "fl (X * X) = Finite (of_int 1 * pow2 (- 1074))"
    proof (rule fl_subnormal)
      show "X * X \<noteq> 0" using Xpos by simp
      show "\<bar>X * X\<bar> < pow2 (- 1022)" using XX Upos Usmall by simp
      have "pow2 (- 1074) \<noteq> 0" using pow2_pos[of "- 1074"] by linarith
      then have "X * X / pow2 (- 1074) = 81 / 64" by (simp add: XX U_def)
      then show "\<bar>X * X / pow2 (- 1074) - of_int 1\<bar> < 1 / 2" by (simp only:)
      show "\<bar>1 :: int\<bar> \<le> 1" by simp
    qed
    then show ?thesis by (simp add: U_def)
  qed
  have flU: "fl U = Finite U"
  proof -
    have "fl U = Finite (of_int 1 * pow2 (- 1074))"
    proof (rule fl_subnormal)
      show "U \<noteq> 0" using Upos by simp
      show "\<bar>U\<bar> < pow2 (- 1022)" using Upos Usmall by simp
      show "\<bar>U / pow2 (- 1074) - of_int 1\<bar> < 1 / 2" using Upos by (simp add: U_def)
      show "\<bar>1 :: int\<bar> \<le> 1" by simp
    qed
    then show ?thesis by (simp add: U_def)
  qed
  have RR: "R * R = U" using pow2_add[of "- 537" "- 537"] by (simp add: R_def U_def)
  have Rpos: "0 < R" by (simp add: R_def)
  have sqrtU: "sqrt U = R"
  proof -
    have "sqrt (R * R) = \<bar>R\<bar>" by simp
    then show ?thesis using RR Rpos by simp
  qed
  have Rk: "R = of_int (2 ^ 52) * pow2 (- 537 - 52)"
    using pow2_add[of 52 "- 589"] by (simp add: R_def pow2_def)
  have flR: "fl R = Finite R" unfolding Rk by (rule fl_normal_exact) simp_all
  have q: "X / R = 9 / 8"
  proof -
    have "pow2 (- 537) = pow2 3 * pow2 (- 540)" using pow2_add[of 3 "- 540"] by simp
    moreover have "pow2 3 = 8" by (simp add: pow2_def)
    moreover have "0 < pow2 (- 540)" by simp
    ultimately show ?thesis using assms by (simp add: R_def)
  qed
  have q': "(9 / 8 :: real) = of_int (9 * 2 ^ 49) * pow2 (0 - 52)" by (simp add: pow2_def)
  have "fl (of_int (9 * 2 ^ 49) * pow2 (0 - 52)) = Finite (of_int (9 * 2 ^ 49) * pow2 (0 - 52))"
    by (rule fl_normal_exact) simp_all
  then have flq: "fl (9 / 8) = Finite (9 / 8)" unfolding q'[symmetric] .
  have acc: "accumulate_double [Finite X] [Finite 1] (Finite 0, Finite 0, Finite 0) =
      (Finite X, Finite U, Finite 1)"
    by (simp add: flX flXX flU fl_one)
  have nz: "U \<noteq> 0" "R \<noteq> 0" "\<not> U < 0" using Upos Rpos by simp_all
  show ?thesis
    by (simp only: calculateCosineSimilarity_double_def acc)
       (simp add: nz sqrtU flR fl_one q flq)
qed

lemma fl_not_nan [simp]: "fl x \<noteq> NaN"
  by (simp add: fl_def)

lemma square_not_nan: "finite_double x \<Longrightarrow> times_double x x \<noteq> NaN"
  by (cases x) (simp_all add: finite_double_def)

lemma plus_not_nan:
  "magnitude_value m \<Longrightarrow> magnitude_value p \<Longrightarrow> m \<noteq> NaN \<Longrightarrow> p \<noteq> NaN \<Longrightarrow> plus_double m p \<noteq> NaN"
  by (cases m; cases p) (simp_all add: magnitude_value_def)

lemma accumulate_double_not_nan:
  "\<forall>v\<in>set a. finite_double v \<Longrightarrow> \<forall>v\<in>set b. finite_double v \<Longrightarrow>
   magnitude_value m1 \<Longrightarrow> magnitude_value m2 \<Longrightarrow> m1 \<noteq> NaN \<Longrightarrow> m2 \<noteq> NaN \<Longrightarrow>
   accumulate_double a b (d, m1, m2) = (d', m1', m2') \<Longrightarrow>
   m1' \<noteq> NaN \<and> m2' \<noteq> NaN"
proof (induction a b "(d, m1, m2)" arbitrary: d m1 m2 rule: accumulate_double.induct)
  case (1 x xs y ys dotProduct magnitude1 magnitude2)
  have fx: "finite_double x" and fy: "finite_double y" using 1(2,3) by simp_all
  have v: "magnitude_value (plus_double magnitude1 (times_double x x))"
    "magnitude_value (plus_double magnitude2 (times_double y y))"
    using 1(4,5) by (simp_all add: plus_value square_value)
  have n: "plus_double magnitude1 (times_double x x) \<noteq> NaN"
    "plus_double magnitude2 (times_double y y) \<noteq> NaN"
    using 1(4,5,6,7) fx fy by (simp_all add: plus_not_nan square_value square_not_nan)
  show ?case
    using 1(1)[OF _ _ v n] 1(2,3,8) by simp
qed simp_all

lemma sqrt_positive:
  assumes "magnitude_value m" "m \<noteq> Finite 0" "m \<noteq> NaN"
  shows "case sqrt_double m of Finite w \<Rightarrow> 0 < w | Infinity s \<Rightarrow> s | NaN \<Rightarrow> False"
proof (cases m)
  case (Finite v)
  then have v: "pow2 (- 1074) \<le> v" using assms by (simp add: magnitude_value_def)
  then have pos: "0 < v" by (rule pow2_le_pos)
  have "case sqrt_double m of Finite w \<Rightarrow> pow2 (- 537) \<le> w | Infinity s \<Rightarrow> s | NaN \<Rightarrow> True"
    using assms(1,2) by (rule sqrt_value)
  moreover have "sqrt_double m \<noteq> NaN" using Finite pos by simp
  ultimately show ?thesis
    using pow2_le_pos[of "- 537"] by (cases "sqrt_double m") simp_all
next
  case (Infinity s)
  then show ?thesis using assms by (simp add: magnitude_value_def)
next
  case NaN
  then show ?thesis using assms by simp
qed

lemma fl_positive: "0 < x \<Longrightarrow> case fl x of Finite w \<Rightarrow> 0 \<le> w | Infinity s \<Rightarrow> s | NaN \<Rightarrow> False"
  by (simp add: fl_def nearest_nonneg)

lemma no_nan_without_overflow:
  assumes "\<forall>v\<in>set x. finite_double v" "\<forall>v\<in>set y. finite_double v"
    and "finite_double (dotProduct_double x y)"
  shows "calculateCosineSimilarity_double x y \<noteq> NaN"
proof -
  obtain dp m1 m2 where acc: "accumulate_double x y (Finite 0, Finite 0, Finite 0) = (dp, m1, m2)"
    by (cases "accumulate_double x y (Finite 0, Finite 0, Finite 0)") auto
  have z: "magnitude_value (Finite 0)" by (simp add: magnitude_value_def)
  have zn: "Finite 0 \<noteq> NaN" by simp
  have mv: "magnitude_value m1 \<and> magnitude_value m2"
    using z z acc by (rule accumulate_double_values)
  have nn: "m1 \<noteq> NaN \<and> m2 \<noteq> NaN"
    using assms(1,2) z z zn zn acc by (rule accumulate_double_not_nan)
  obtain p where dp: "dp = Finite p"
    using assms(3) acc by (cases dp) (simp_all add: dotProduct_double_def finite_double_def)
  show ?thesis
  proof (cases "length x = length y \<and> m1 \<noteq> Finite 0 \<and> m2 \<noteq> Finite 0")
    case False
    then show ?thesis by (auto simp: calculateCosineSimilarity_double_def acc)
  next
    case True
    have 1: "case sqrt_double m1 of Finite w \<Rightarrow> 0 < w | Infinity s \<Rightarrow> s | NaN \<Rightarrow> False"
      using mv True nn by (intro sqrt_positive) simp_all
    have 2: "case sqrt_double m2 of Finite w \<Rightarrow> 0 < w | Infinity s \<Rightarrow> s | NaN \<Rightarrow> False"
      using mv True nn by (intro sqrt_positive) simp_all
    have nz: "times_double (sqrt_double m1) (sqrt_double m2) \<noteq> Finite 0"
      using mv True by (intro denominator_not_zero) simp_all
    have "times_double (sqrt_double m1) (sqrt_double m2) \<noteq> NaN"
      using 1 2 by (cases "sqrt_double m1"; cases "sqrt_double m2") simp_all
    then have "divide_double (Finite p) (times_double (sqrt_double m1) (sqrt_double m2)) \<noteq> NaN"
      using nz by (cases "times_double (sqrt_double m1) (sqrt_double m2)") simp_all
    then show ?thesis using True by (simp add: calculateCosineSimilarity_double_def acc dp)
  qed
qed


subsection \<open>The contract\<close>

text \<open>
  Claim C4, as stated, fails on doubles. The similarity of \<open>[1, 1, 1]\<close> with itself is
  \<open>1 + 1 / 2 ^ 52\<close>, that is 1.0000000000000002: above 1, and not 1. For the vector
  \<open>[2 ^ 600]\<close> the squares overflow and the result is \<open>NaN\<close>; for the non-zero vector
  \<open>[1 / 2 ^ 600]\<close> they underflow to 0 and the result is 0. The square of \<open>9 / 2 ^ 540\<close>
  underflows to the least positive double, and the similarity of \<open>[9 / 2 ^ 540]\<close> and
  \<open>[1]\<close> is 1.125, so on doubles the bounds do not hold up to rounding either.
\<close>

theorem double_arithmetic_breaks_exact_claims:
  "calculateCosineSimilarity_double [Finite 1, Finite 1, Finite 1] [Finite 1, Finite 1, Finite 1] =
     Finite (1 + 1 / 2 ^ 52) \<and>
   (1 :: real) < 1 + 1 / 2 ^ 52 \<and>
   calculateCosineSimilarity_double [Finite (2 ^ 600)] [Finite (2 ^ 600)] = NaN \<and>
   calculateCosineSimilarity_double [Finite (1 / 2 ^ 600)] [Finite (1 / 2 ^ 600)] = Finite 0 \<and>
   calculateCosineSimilarity_double [Finite (9 / 2 ^ 540)] [Finite 1] = Finite (9 / 8) \<and>
   (1 :: real) < 9 / 8"
proof -
  define h :: real where "h = 2 ^ 600"
  define t :: real where "t = 1 / 2 ^ 600"
  define u :: real where "u = 9 / 2 ^ 540"
  have "fl (h * h) = Infinity True" by (rule fl_overflow) (simp add: h_def pow2_def)
  then have "calculateCosineSimilarity_double [Finite h] [Finite h] = NaN"
    by (simp add: calculateCosineSimilarity_double_def)
  moreover have "fl (t * t) = Finite 0" by (rule fl_underflow) (simp add: t_def pow2_def)
  then have "calculateCosineSimilarity_double [Finite t] [Finite t] = Finite 0"
    by (simp add: calculateCosineSimilarity_double_def fl_zero)
  moreover have "calculateCosineSimilarity_double [Finite u] [Finite 1] = Finite (9 / 8)"
    by (rule underflow_above_one) (simp add: u_def pow2_def)
  ultimately show ?thesis using self_similarity_above_one unfolding h_def t_def u_def by simp
qed

text \<open>
  Claim C4, amended. For arrays \<open>a\<close> and \<open>b\<close> of equal length, in exact arithmetic
  \<open>calculateCosineSimilarity\<close> returns \<open>dot a b / (magnitude a * magnitude b)\<close>, and 0 when
  either magnitude is zero; the result lies between -1 and 1; and the similarity of a
  vector that has a non-zero component with itself is 1. In double arithmetic three things
  hold: it returns 0 when either vector consists of zeros; whenever it divides, the divisor
  is not zero; and when all components are numbers and the accumulated dot product is a
  number, the result is not \<open>NaN\<close>. The formula, the bounds and the self-similarity are
  stated for exact arithmetic only.
\<close>

theorem calculateCosineSimilarity_contract:
  fixes a b :: "real list" and x y :: "double list"
  assumes "length a = length b"
  shows "calculateCosineSimilarity (JArray a) (JArray b) =
           (if magnitude a = 0 \<or> magnitude b = 0 then 0
            else dot a b / (magnitude a * magnitude b)) \<and>
         - 1 \<le> calculateCosineSimilarity (JArray a) (JArray b) \<and>
         calculateCosineSimilarity (JArray a) (JArray b) \<le> 1 \<and>
         ((\<exists>v\<in>set a. v \<noteq> 0) \<longrightarrow> calculateCosineSimilarity (JArray a) (JArray a) = 1) \<and>
         ((\<forall>v\<in>set x. v = Finite 0) \<or> (\<forall>v\<in>set y. v = Finite 0) \<longrightarrow>
            calculateCosineSimilarity_double x y = Finite 0) \<and>
         (divides_double x y \<longrightarrow> divisor_double x y \<noteq> Finite 0) \<and>
         ((\<forall>v\<in>set x. finite_double v) \<and> (\<forall>v\<in>set y. finite_double v) \<and>
          finite_double (dotProduct_double x y) \<longrightarrow>
            calculateCosineSimilarity_double x y \<noteq> NaN)"
proof -
  have "\<bar>calculateCosineSimilarity (JArray a) (JArray b)\<bar> \<le> 1"
    using assms by (rule cosine_bounds)
  then have "- 1 \<le> calculateCosineSimilarity (JArray a) (JArray b)"
    and "calculateCosineSimilarity (JArray a) (JArray b) \<le> 1"
    by linarith+
  moreover have "(\<forall>v\<in>set x. finite_double v) \<and> (\<forall>v\<in>set y. finite_double v) \<and>
          finite_double (dotProduct_double x y) \<longrightarrow>
            calculateCosineSimilarity_double x y \<noteq> NaN"
    using no_nan_without_overflow[of x y] by blast
  ultimately show ?thesis
    using cosine_eq[OF assms] cosine_self[of a] zero_vector_double[of x y] divisor_not_zero[of x y]
    by blast
qed

lemma divides_ones: "divides_double [Finite 1] [Finite 1]"
  by (simp add: divides_double_def fl_zero fl_one)

lemma dotProduct_ones: "dotProduct_double [Finite 1] [Finite 1] = Finite 1"
  by (simp add: dotProduct_double_def fl_zero fl_one)

theorem calculateCosineSimilarity_contract_witness:
  "length [3, 4 :: real] = length [4, 3 :: real] \<and>
   calculateCosineSimilarity (JArray [3, 4]) (JArray [4, 3]) = 24 / 25 \<and>
   - 1 \<le> calculateCosineSimilarity (JArray [3, 4]) (JArray [4, 3]) \<and>
   calculateCosineSimilarity (JArray [3, 4]) (JArray [4, 3]) \<le> 1 \<and>
   calculateCosineSimilarity (JArray [3, 4]) (JArray [3, 4]) = 1 \<and>
   calculateCosineSimilarity_double [Finite 0, Finite 0] [Finite 1, Finite 1] = Finite 0 \<and>
   divides_double [Finite 1] [Finite 1] \<and>
   divisor_double [Finite 1] [Finite 1] \<noteq> Finite 0 \<and>
   finite_double (Finite 1) \<and>
   finite_double (dotProduct_double [Finite 1] [Finite 1]) \<and>
   calculateCosineSimilarity_double [Finite 1] [Finite 1] \<noteq> NaN"
  using calculateCosineSimilarity_contract[where a = "[3, 4]" and b = "[4, 3]"
      and x = "[Finite 0, Finite 0]" and y = "[Finite 1, Finite 1]"]
    calculateCosineSimilarity_contract[where a = "[3, 4]" and b = "[4, 3]"
      and x = "[Finite 1]" and y = "[Finite 1]"]
    divides_ones
  by (simp add: magnitude_def dot_def sqrt_25 dotProduct_ones finite_double_def)

section \<open>Properties of \<open>findSimilarDocuments\<close>\<close>

lemma slice0_Nil: "slice0 [] limit = []"
  by (simp add: slice0_def split: option.splits)

lemma findSimilarDocuments_result:
  "fst (findSimilarDocuments sv q t limit s) =
     (if db_fails sv SelectAllDocuments then []
      else slice0 (sort_by_score (scan q t (select_all_newest_first s) [])) limit)"
  by (simp add: findSimilarDocuments_def Let_def sort_by_score_def slice0_Nil)

lemma scan_acc: "scan q t docs acc = acc @ scan q t docs []"
proof (induction docs arbitrary: acc)
  case Nil
  show ?case by simp
next
  case (Cons d ds)
  show ?case
    using Cons[of "acc @ [entry d (calculateCosineSimilarity q (embedding d))]"]
      Cons[of "[entry d (calculateCosineSimilarity q (embedding d))]"] Cons[of acc]
    by (simp add: Let_def)
qed

lemma scan_take: "\<exists>n. scan q t docs [] = full_scan q t (take n docs)"
proof (induction docs)
  case Nil
  show ?case by (simp add: full_scan_def)
next
  case (Cons d ds)
  then obtain n where n: "scan q t ds [] = full_scan q t (take n ds)" by blast
  let ?sim = "calculateCosineSimilarity q (embedding d)"
  show ?case
  proof (cases "js_ge ?sim t")
    case False
    then have "scan q t (d # ds) [] = full_scan q t (take (Suc n) (d # ds))"
      using n by (simp add: full_scan_def)
    then show ?thesis by blast
  next
    case hit: True
    show ?thesis
    proof (cases "?sim > 0.95")
      case True
      with hit have "scan q t (d # ds) [] = full_scan q t (take (Suc 0) (d # ds))"
        by (simp add: full_scan_def)
      then show ?thesis by blast
    next
      case False
      with hit have "scan q t (d # ds) [] = full_scan q t (take (Suc n) (d # ds))"
        using n scan_acc[of q t ds "[entry d ?sim]"] by (simp add: full_scan_def)
      then show ?thesis by blast
    qed
  qed
qed

lemma full_scan_scores: "e \<in> set (full_scan q t docs) \<Longrightarrow> js_ge (similarity_score e) t"
  by (auto simp: full_scan_def entry_def)



lemma insort_key_head:
  "sorted (map f xs) \<Longrightarrow> \<forall>y\<in>set xs. f x \<le> f y \<Longrightarrow> insort_key f x xs = x # xs"
  by (cases xs) auto

lemma subseq_set: "subseq xs ys \<Longrightarrow> set xs \<subseteq> set ys"
  by (induction rule: list_emb.induct) auto



lemma subseq_slice0: "subseq (slice0 xs limit) xs"
  by (auto simp: slice0_def split: option.splits intro: prefix_imp_subseq take_is_prefix)





lemma sorted_wrt_take: "sorted_wrt R xs \<Longrightarrow> sorted_wrt R (take n xs)"
proof -
  assume "sorted_wrt R xs"
  then have "sorted_wrt R (take n xs @ drop n xs)" by simp
  then show ?thesis unfolding sorted_wrt_append by blast
qed

lemma sorted_wrt_slice0: "sorted_wrt R xs \<Longrightarrow> sorted_wrt R (slice0 xs limit)"
  by (simp add: slice0_def sorted_wrt_take split: option.splits)

lemma set_slice0: "set (slice0 xs limit) \<subseteq> set xs"
  using subseq_slice0 by (rule subseq_set)

lemma length_slice0: "0 \<le> l \<Longrightarrow> int (length (slice0 xs (Some l))) \<le> l"
  by (simp add: slice0_def)

lemma sort_by_score_descending:
  "sorted_wrt (\<lambda>a b. similarity_score b \<le> similarity_score a) (sort_by_score xs)"
proof -
  have "sorted (map (\<lambda>e. - similarity_score e) (sort_key (\<lambda>e. - similarity_score e) xs))"
    by (rule sorted_sort_key)
  then show ?thesis by (simp add: sort_by_score_def sorted_map)
qed

lemma ranked_score: "ranked a b \<Longrightarrow> similarity_score b \<le> similarity_score a"
  unfolding ranked_def by linarith

lemma rankedI:
  "similarity_score b \<le> similarity_score a \<Longrightarrow> sim_created_at b \<le> sim_created_at a \<Longrightarrow> ranked a b"
  unfolding ranked_def by linarith

lemma ranked_insort:
  "sorted_wrt ranked S \<Longrightarrow> \<forall>y\<in>set S. sim_created_at y \<le> sim_created_at x \<Longrightarrow>
   sorted_wrt ranked (insort_key (\<lambda>e. - similarity_score e) x S)"
proof (induction S)
  case Nil
  show ?case by simp
next
  case (Cons y S)
  have yS: "\<forall>z\<in>set S. ranked y z" and S: "sorted_wrt ranked S"
    using Cons.prems(1) by simp_all
  show ?case
  proof (cases "similarity_score y \<le> similarity_score x")
    case True
    have "ranked x z" if z: "z \<in> set (y # S)" for z
    proof (rule rankedI)
      have "similarity_score z \<le> similarity_score y"
      proof (cases "z = y")
        case True then show ?thesis by simp
      next
        case False
        then have "z \<in> set S" using z by simp
        then show ?thesis using yS ranked_score by blast
      qed
      then show "similarity_score z \<le> similarity_score x" using True by linarith
      show "sim_created_at z \<le> sim_created_at x" using z Cons.prems(2) by blast
    qed
    then have "sorted_wrt ranked (x # y # S)" using Cons.prems(1) by simp
    moreover have "insort_key (\<lambda>e. - similarity_score e) x (y # S) = x # y # S"
      using True by simp
    ultimately show ?thesis by simp
  next
    case False
    have "\<forall>z\<in>set S. sim_created_at z \<le> sim_created_at x" using Cons.prems(2) by simp
    with S have IH: "sorted_wrt ranked (insort_key (\<lambda>e. - similarity_score e) x S)"
      by (rule Cons.IH)
    have "ranked y x" using False unfolding ranked_def by linarith
    then have "\<forall>z\<in>set (insort_key (\<lambda>e. - similarity_score e) x S). ranked y z"
      using yS by (simp add: set_insort_key)
    then have "sorted_wrt ranked (y # insort_key (\<lambda>e. - similarity_score e) x S)"
      using IH by simp
    moreover have "insort_key (\<lambda>e. - similarity_score e) x (y # S) =
        y # insort_key (\<lambda>e. - similarity_score e) x S"
      using False by simp
    ultimately show ?thesis by simp
  qed
qed

lemma ranked_sort:
  "sorted_wrt (\<lambda>a b. sim_created_at b \<le> sim_created_at a) L \<Longrightarrow> sorted_wrt ranked (sort_by_score L)"
proof (induction L)
  case Nil
  show ?case by (simp add: sort_by_score_def)
next
  case (Cons x L)
  have "sorted_wrt ranked (sort_by_score L)" using Cons by simp
  moreover have "\<forall>y\<in>set (sort_by_score L). sim_created_at y \<le> sim_created_at x"
    using Cons.prems by (simp add: sort_by_score_def)
  ultimately show ?case unfolding sort_by_score_def sort_key_simps by (rule ranked_insort)
qed

lemma newest_first_sorted:
  "sorted_wrt (\<lambda>a b. created_at b \<le> created_at a) (select_all_newest_first s)"
proof -
  have "sorted (map (\<lambda>d. - created_at d) (sort_key (\<lambda>d. - created_at d) (documents s)))"
    by (rule sorted_sort_key)
  then show ?thesis by (simp add: select_all_newest_first_def sorted_map)
qed

lemma full_scan_recency:
  "sorted_wrt (\<lambda>a b. created_at b \<le> created_at a) docs \<Longrightarrow>
   sorted_wrt (\<lambda>a b. sim_created_at b \<le> sim_created_at a) (full_scan q t docs)"
  unfolding full_scan_def sorted_wrt_map
  by (rule sorted_wrt_filter) (simp add: entry_def)

lemma scan_recency:
  "sorted_wrt (\<lambda>a b. sim_created_at b \<le> sim_created_at a) (scan q t (select_all_newest_first s) [])"
proof -
  obtain n where n: "scan q t (select_all_newest_first s) [] =
      full_scan q t (take n (select_all_newest_first s))"
    using scan_take by blast
  show ?thesis unfolding n
    by (intro full_scan_recency sorted_wrt_take newest_first_sorted)
qed

lemma scan_scores: "e \<in> set (scan q t docs []) \<Longrightarrow> js_ge (similarity_score e) t"
proof -
  assume e: "e \<in> set (scan q t docs [])"
  obtain n where "scan q t docs [] = full_scan q t (take n docs)" using scan_take by blast
  with e show ?thesis by (simp add: full_scan_scores)
qed


lemma mismatch_zero:
  "\<not> same_dimension a d \<Longrightarrow> calculateCosineSimilarity (JArray a) (embedding d) = 0"
  by (auto simp: same_dimension_def calculateCosineSimilarity_def split: json.splits)

lemma scan_skips_mismatch:
  "0 < t \<Longrightarrow> scan (JArray a) (Some t) (filter (same_dimension a) docs) acc =
     scan (JArray a) (Some t) docs acc"
proof (induction docs arbitrary: acc)
  case Nil
  show ?case by simp
next
  case (Cons d ds)
  show ?case
  proof (cases "same_dimension a d")
    case True
    then show ?thesis using Cons by (simp add: Let_def)
  next
    case False
    then have "\<not> js_ge (calculateCosineSimilarity (JArray a) (embedding d)) (Some t)"
      using Cons.prems by (simp add: mismatch_zero js_ge_def)
    then show ?thesis using False Cons by simp
  qed
qed

lemma select_filter:
  "select_all_newest_first (s\<lparr>documents := filter P (documents s)\<rparr>) =
   filter P (select_all_newest_first s)"
  by (simp add: select_all_newest_first_def filter_sort)

lemma scan_sources:
  assumes "e \<in> set (scan q t docs [])"
  shows "\<exists>d\<in>set docs. e = entry d (calculateCosineSimilarity q (embedding d)) \<and>
           js_ge (calculateCosineSimilarity q (embedding d)) t"
proof -
  obtain n where "scan q t docs [] = full_scan q t (take n docs)" using scan_take by blast
  with assms have "e \<in> set (full_scan q t (take n docs))" by simp
  then obtain d where "d \<in> set (take n docs)" "e = entry d (calculateCosineSimilarity q (embedding d))"
    "js_ge (calculateCosineSimilarity q (embedding d)) t"
    by (auto simp: full_scan_def)
  moreover have "set (take n docs) \<subseteq> set docs" by (rule set_take_subset)
  ultimately show ?thesis by blast
qed


subsection \<open>The example store\<close>

lemma cosine_docA: "calculateCosineSimilarity (JArray [1, 0]) (embedding docA) = 1"
  by (simp add: calculateCosineSimilarity_def docA_def)

lemma cosine_docB: "calculateCosineSimilarity (JArray [1, 0]) (embedding docB) = 3 / 5"
  by (simp add: calculateCosineSimilarity_def docB_def)

lemma cosine_docC: "calculateCosineSimilarity (JArray [1, 0]) (embedding docC) = 0"
  by (simp add: calculateCosineSimilarity_def docC_def)

lemma select_store0: "select_all_newest_first store0 = [docC, docB, docA]"
  by (simp add: select_all_newest_first_def store0_def docA_def docB_def docC_def)

lemmas search_store0 =
  findSimilarDocuments_def select_store0 cosine_docA cosine_docB cosine_docC js_ge_def
  sort_by_score_def slice0_def sv0_def entry_def Let_def

lemma search_half_5:
  "fst (findSimilarDocuments sv0 (JArray [1, 0]) (Some (1 / 2)) (Some 5) store0) =
     [entry docA 1, entry docB (3 / 5)]"
  by (simp add: search_store0)

lemma search_half_minus_1:
  "fst (findSimilarDocuments sv0 (JArray [1, 0]) (Some (1 / 2)) (Some (- 1)) store0) = [entry docA 1]"
  by (simp add: search_store0)

lemma search_zero_5:
  "fst (findSimilarDocuments sv0 (JArray [1, 0]) (Some 0) (Some 5) store0) =
     [entry docA 1, entry docB (3 / 5), entry docC 0]"
  by (simp add: search_store0)

subsection \<open>Ranking\<close>

text \<open>
  Claim C2, as stated, fails for a negative limit: \<open>slice(0, -1)\<close> drops the last entry only,
  so with two matches and the limit -1, which \<open>/rag/search\<close> passes on from the request,
  one entry is returned.
\<close>

theorem findSimilarDocuments_negative_limit:
  "fst (findSimilarDocuments sv0 (JArray [1, 0]) (Some (1 / 2)) (Some (- 1)) store0) = [entry docA 1] \<and>
   \<not> int (length (fst (findSimilarDocuments sv0 (JArray [1, 0]) (Some (1 / 2)) (Some (- 1)) store0))) \<le> - 1"
  by (simp add: search_half_minus_1)

text \<open>
  Claim C2, amended. For every query vector, every threshold and every limit that is not
  negative, \<open>findSimilarDocuments\<close> returns a list in descending order of score, of length at
  most the limit, whose scores are all at least the threshold; and of two returned entries
  with equal scores, the one that precedes the other is not older.
\<close>

theorem findSimilarDocuments_contract:
  assumes "0 \<le> l"
  shows "sorted_wrt (\<lambda>a b. similarity_score b \<le> similarity_score a)
           (fst (findSimilarDocuments sv q (Some t) (Some l) s)) \<and>
         int (length (fst (findSimilarDocuments sv q (Some t) (Some l) s))) \<le> l \<and>
         (\<forall>e\<in>set (fst (findSimilarDocuments sv q (Some t) (Some l) s)). t \<le> similarity_score e) \<and>
         (\<forall>i j. i < j \<and> j < length (fst (findSimilarDocuments sv q (Some t) (Some l) s)) \<and>
            similarity_score (fst (findSimilarDocuments sv q (Some t) (Some l) s) ! i) =
            similarity_score (fst (findSimilarDocuments sv q (Some t) (Some l) s) ! j) \<longrightarrow>
            sim_created_at (fst (findSimilarDocuments sv q (Some t) (Some l) s) ! j) \<le>
            sim_created_at (fst (findSimilarDocuments sv q (Some t) (Some l) s) ! i))"
proof (cases "db_fails sv SelectAllDocuments")
  case True
  then show ?thesis using assms by (simp add: findSimilarDocuments_result)
next
  case False
  let ?L = "scan q (Some t) (select_all_newest_first s) []"
  let ?res = "fst (findSimilarDocuments sv q (Some t) (Some l) s)"
  have res: "?res = slice0 (sort_by_score ?L) (Some l)"
    using False by (simp add: findSimilarDocuments_result)
  have 1: "sorted_wrt (\<lambda>a b. similarity_score b \<le> similarity_score a) ?res"
    unfolding res by (intro sorted_wrt_slice0 sort_by_score_descending)
  have 2: "int (length ?res) \<le> l" unfolding res using assms by (rule length_slice0)
  have sub: "set ?res \<subseteq> set ?L"
    unfolding res using set_slice0[of "sort_by_score ?L" "Some l"] by (simp add: sort_by_score_def)
  have 3: "\<forall>e\<in>set ?res. t \<le> similarity_score e"
  proof
    fix e assume "e \<in> set ?res"
    then have "e \<in> set ?L" using sub by (rule subsetD[rotated])
    then have "js_ge (similarity_score e) (Some t)" by (rule scan_scores)
    then show "t \<le> similarity_score e" by (simp add: js_ge_def)
  qed
  have r: "sorted_wrt ranked ?res"
    unfolding res by (intro sorted_wrt_slice0 ranked_sort scan_recency)
  have 4: "\<forall>i j. i < j \<and> j < length ?res \<and>
      similarity_score (?res ! i) = similarity_score (?res ! j) \<longrightarrow>
      sim_created_at (?res ! j) \<le> sim_created_at (?res ! i)"
  proof (intro allI impI)
    fix i j
    assume a: "i < j \<and> j < length ?res \<and> similarity_score (?res ! i) = similarity_score (?res ! j)"
    then have "ranked (?res ! i) (?res ! j)" using r by (simp add: sorted_wrt_iff_nth_less)
    then show "sim_created_at (?res ! j) \<le> sim_created_at (?res ! i)"
      using a unfolding ranked_def by linarith
  qed
  show ?thesis using 1 2 3 4 by (intro conjI)
qed

lemma search_tie:
  "fst (findSimilarDocuments sv0 (JArray [1, 0]) (Some (1 / 2)) (Some 5) store_tie) =
     [entry docB (3 / 5), entry docD (3 / 5)]"
proof -
  have "select_all_newest_first store_tie = [docB, docD]"
    by (simp add: select_all_newest_first_def store_tie_def docB_def docD_def)
  moreover have "calculateCosineSimilarity (JArray [1, 0]) (embedding docD) = 3 / 5"
    by (simp add: calculateCosineSimilarity_def docD_def)
  ultimately show ?thesis
    by (simp add: findSimilarDocuments_def cosine_docB js_ge_def sort_by_score_def slice0_def
        sv0_def entry_def Let_def)
qed

theorem findSimilarDocuments_contract_witness:
  "(0 :: int) \<le> 5 \<and>
   fst (findSimilarDocuments sv0 (JArray [1, 0]) (Some (1 / 2)) (Some 5) store0) =
     [entry docA 1, entry docB (3 / 5)] \<and>
   sorted_wrt (\<lambda>a b. similarity_score b \<le> similarity_score a)
     (fst (findSimilarDocuments sv0 (JArray [1, 0]) (Some (1 / 2)) (Some 5) store0)) \<and>
   int (length (fst (findSimilarDocuments sv0 (JArray [1, 0]) (Some (1 / 2)) (Some 5) store0))) \<le> 5 \<and>
   fst (findSimilarDocuments sv0 (JArray [1, 0]) (Some (1 / 2)) (Some 5) store_tie) =
     [entry docB (3 / 5), entry docD (3 / 5)] \<and>
   similarity_score (fst (findSimilarDocuments sv0 (JArray [1, 0]) (Some (1 / 2)) (Some 5) store_tie) ! 0) =
   similarity_score (fst (findSimilarDocuments sv0 (JArray [1, 0]) (Some (1 / 2)) (Some 5) store_tie) ! 1) \<and>
   sim_created_at (fst (findSimilarDocuments sv0 (JArray [1, 0]) (Some (1 / 2)) (Some 5) store_tie) ! 1) <
   sim_created_at (fst (findSimilarDocuments sv0 (JArray [1, 0]) (Some (1 / 2)) (Some 5) store_tie) ! 0)"
  using findSimilarDocuments_contract[of 5 sv0 "JArray [1, 0]" "1 / 2" store0]
    findSimilarDocuments_contract[of 5 sv0 "JArray [1, 0]" "1 / 2" store_tie]
    search_half_5 search_tie
  by (simp add: entry_def docB_def docD_def)

subsection \<open>Stored vectors of another dimension\<close>

text \<open>
  Claim C5, as stated, fails for a threshold that is not positive: a stored vector of another
  length scores 0, and 0 passes the threshold 0 (the setting \<open>similarity_threshold\<close> may be
  \<open>0\<close>, and \<open>/rag/search\<close> passes on a negative threshold from the request).
\<close>

theorem mismatched_dimension_returned:
  "\<not> same_dimension [1, 0] docC \<and>
   fst (findSimilarDocuments sv0 (JArray [1, 0]) (Some 0) (Some 5) store0) =
     [entry docA 1, entry docB (3 / 5), entry docC 0]"
  by (simp add: search_zero_5 same_dimension_def docC_def)

text \<open>
  Claim C5, amended. For every query vector, every store and every positive threshold, the
  stored embeddings that are not arrays of the query's length are skipped: the search returns
  what it returns on the store without them, every returned entry comes from a stored
  document whose embedding has the query's length, and the search always returns a list
  (it has no error result).
\<close>

theorem mismatched_dimension_skipped:
  assumes "0 < t"
  shows "fst (findSimilarDocuments sv (JArray a) (Some t) limit s) =
         fst (findSimilarDocuments sv (JArray a) (Some t) limit
               (s\<lparr>documents := filter (same_dimension a) (documents s)\<rparr>)) \<and>
         (\<forall>e\<in>set (fst (findSimilarDocuments sv (JArray a) (Some t) limit s)).
            \<exists>d\<in>set (documents s). same_dimension a d \<and>
              e = entry d (calculateCosineSimilarity (JArray a) (embedding d)))"
proof (intro conjI ballI)
  show "fst (findSimilarDocuments sv (JArray a) (Some t) limit s) =
         fst (findSimilarDocuments sv (JArray a) (Some t) limit
               (s\<lparr>documents := filter (same_dimension a) (documents s)\<rparr>))"
    using assms by (simp add: findSimilarDocuments_result select_filter scan_skips_mismatch)
next
  fix e assume e: "e \<in> set (fst (findSimilarDocuments sv (JArray a) (Some t) limit s))"
  let ?L = "scan (JArray a) (Some t) (select_all_newest_first s) []"
  have "e \<in> set ?L"
  proof (cases "db_fails sv SelectAllDocuments")
    case True
    then show ?thesis using e by (simp add: findSimilarDocuments_result)
  next
    case False
    then have "e \<in> set (slice0 (sort_by_score ?L) limit)"
      using e by (simp add: findSimilarDocuments_result)
    then have "e \<in> set (sort_by_score ?L)" using set_slice0 by (rule subsetD[rotated])
    then show ?thesis by (simp add: sort_by_score_def)
  qed
  then obtain d where d: "d \<in> set (select_all_newest_first s)"
    "e = entry d (calculateCosineSimilarity (JArray a) (embedding d))"
    "js_ge (calculateCosineSimilarity (JArray a) (embedding d)) (Some t)"
    using scan_sources by blast
  have "same_dimension a d"
  proof (rule ccontr)
    assume "\<not> same_dimension a d"
    then have "calculateCosineSimilarity (JArray a) (embedding d) = 0" by (rule mismatch_zero)
    with d(3) assms show False by (simp add: js_ge_def)
  qed
  moreover have "d \<in> set (documents s)" using d(1) by (simp add: select_all_newest_first_def)
  ultimately show "\<exists>d\<in>set (documents s). same_dimension a d \<and>
      e = entry d (calculateCosineSimilarity (JArray a) (embedding d))"
    using d(2) by blast
qed

theorem mismatched_dimension_skipped_witness:
  "(0 :: real) < 1 / 2 \<and>
   fst (findSimilarDocuments sv0 (JArray [1, 0]) (Some (1 / 2)) (Some 5) store0) =
     [entry docA 1, entry docB (3 / 5)] \<and>
   fst (findSimilarDocuments sv0 (JArray [1, 0]) (Some (1 / 2)) (Some 5)
         (store0\<lparr>documents := filter (same_dimension [1, 0]) (documents store0)\<rparr>)) =
     [entry docA 1, entry docB (3 / 5)]"
  using mismatched_dimension_skipped[of "1 / 2" sv0 "[1, 0]" "Some 5" store0] search_half_5
  by simp

subsection \<open>Early exit\<close>







section \<open>Properties of \<open>processDocumentWithRAG\<close>\<close>

subsection \<open>States and traces\<close>

lemma record_event_simps [simp]:
  "documents (record_event e s) = documents s"
  "rag_settings (record_event e s) = rag_settings s"
  "next_id (record_event e s) = next_id s"
  "now (record_event e s) = now s"
  "trace (record_event e s) = trace s @ [e]"
  by (simp_all add: record_event_def)

lemma store_row_simps [simp]:
  "documents (store_row r s) = documents s @ [r]"
  "rag_settings (store_row r s) = rag_settings s"
  "now (store_row r s) = now s"
  "trace (store_row r s) = trace s"
  by (simp_all add: store_row_def)

lemma hash_taken_record_event [simp]: "hash_taken h (record_event e s) = hash_taken h s"
  by (simp add: hash_taken_def)

lemma hash_taken_iff: "hash_taken h s \<longleftrightarrow> h \<in> file_hash ` set (documents s)"
  by (auto simp: hash_taken_def find_None_iff)

lemma commit_other_run:
  "\<exists>rows. trace (commit_other nd s) = trace s @ map Committed_by_other rows \<and>
          documents (commit_other nd s) = documents s @ rows \<and>
          rag_settings (commit_other nd s) = rag_settings s"
proof (cases "hash_taken (file_hash nd) s")
  case True
  then have "commit_other nd s = s" by (simp add: commit_other_def)
  then show ?thesis by simp
next
  case False
  then have "trace (commit_other nd s) = trace s @ map Committed_by_other [make_row nd s] \<and>
          documents (commit_other nd s) = documents s @ [make_row nd s] \<and>
          rag_settings (commit_other nd s) = rag_settings s"
    by (simp add: commit_other_def)
  then show ?thesis by blast
qed

lemma fold_commit_other_run:
  "\<exists>rows. trace (fold commit_other nds s) = trace s @ map Committed_by_other rows \<and>
          documents (fold commit_other nds s) = documents s @ rows \<and>
          rag_settings (fold commit_other nds s) = rag_settings s"
proof (induction nds arbitrary: s)
  case Nil
  show ?case by simp
next
  case (Cons nd nds)
  obtain r1 where r1: "trace (commit_other nd s) = trace s @ map Committed_by_other r1"
    "documents (commit_other nd s) = documents s @ r1"
    "rag_settings (commit_other nd s) = rag_settings s"
    using commit_other_run by blast
  obtain r2 where r2: "trace (fold commit_other nds (commit_other nd s)) =
      trace (commit_other nd s) @ map Committed_by_other r2"
    "documents (fold commit_other nds (commit_other nd s)) = documents (commit_other nd s) @ r2"
    "rag_settings (fold commit_other nds (commit_other nd s)) = rag_settings (commit_other nd s)"
    using Cons[of "commit_other nd s"] by blast
  have "trace (fold commit_other (nd # nds) s) = trace s @ map Committed_by_other (r1 @ r2) \<and>
        documents (fold commit_other (nd # nds) s) = documents s @ (r1 @ r2) \<and>
        rag_settings (fold commit_other (nd # nds) s) = rag_settings s"
    using r1 r2 by simp
  then show ?case by blast
qed

lemma commit_concurrent_simps [simp]:
  "trace (commit_concurrent sv p s) = trace s @ map Committed_by_other (new_rows sv p s)"
  "documents (commit_concurrent sv p s) = documents s @ new_rows sv p s"
  "rag_settings (commit_concurrent sv p s) = rag_settings s"
proof -
  obtain rows where rows: "trace (commit_concurrent sv p s) = trace s @ map Committed_by_other rows"
    "documents (commit_concurrent sv p s) = documents s @ rows"
    "rag_settings (commit_concurrent sv p s) = rag_settings s"
    unfolding commit_concurrent_def using fold_commit_other_run by blast
  then have "new_rows sv p s = rows" by (simp add: new_rows_def)
  with rows show "trace (commit_concurrent sv p s) = trace s @ map Committed_by_other (new_rows sv p s)"
    "documents (commit_concurrent sv p s) = documents s @ new_rows sv p s"
    "rag_settings (commit_concurrent sv p s) = rag_settings s"
    by simp_all
qed

lemma commit_other_same_table:
  assumes "documents s1 = documents s2" "next_id s1 = next_id s2" "now s1 = now s2"
  shows "documents (commit_other nd s1) = documents (commit_other nd s2) \<and>
         next_id (commit_other nd s1) = next_id (commit_other nd s2) \<and>
         now (commit_other nd s1) = now (commit_other nd s2)"
  using assms
  by (simp add: commit_other_def hash_taken_def make_row_def store_row_def record_event_def)

lemma fold_commit_other_same_table:
  "documents s1 = documents s2 \<Longrightarrow> next_id s1 = next_id s2 \<Longrightarrow> now s1 = now s2 \<Longrightarrow>
   documents (fold commit_other nds s1) = documents (fold commit_other nds s2)"
proof (induction nds arbitrary: s1 s2)
  case Nil
  then show ?case by simp
next
  case (Cons nd nds)
  have "documents (commit_other nd s1) = documents (commit_other nd s2) \<and>
         next_id (commit_other nd s1) = next_id (commit_other nd s2) \<and>
         now (commit_other nd s1) = now (commit_other nd s2)"
    using Cons.prems by (rule commit_other_same_table)
  then show ?case using Cons.IH[of "commit_other nd s1" "commit_other nd s2"] by simp
qed

lemma commit_concurrent_same_table:
  "documents s1 = documents s2 \<Longrightarrow> next_id s1 = next_id s2 \<Longrightarrow> now s1 = now s2 \<Longrightarrow>
   documents (commit_concurrent sv p s1) = documents (commit_concurrent sv p s2)"
  unfolding commit_concurrent_def by (rule fold_commit_other_same_table)

lemma inserted_rows_append [simp]: "inserted_rows (xs @ ys) = inserted_rows xs @ inserted_rows ys"
  by (induction xs rule: inserted_rows.induct) simp_all

lemma committed_rows_append [simp]: "committed_rows (xs @ ys) = committed_rows xs @ committed_rows ys"
  by (induction xs rule: committed_rows.induct) simp_all

lemma lookups_append [simp]: "lookups (xs @ ys) = lookups xs @ lookups ys"
  by (induction xs rule: lookups.induct) simp_all

lemma thrown_append [simp]: "thrown (xs @ ys) = thrown xs @ thrown ys"
  by (induction xs rule: thrown.induct) simp_all

lemma embedding_calls_append [simp]: "embedding_calls (xs @ ys) = embedding_calls xs @ embedding_calls ys"
  by (induction xs rule: embedding_calls.induct) simp_all

lemma generation_calls_append [simp]: "generation_calls (xs @ ys) = generation_calls xs @ generation_calls ys"
  by (induction xs rule: generation_calls.induct) simp_all

lemma others_simps [simp]:
  "inserted_rows (map Committed_by_other rows) = []"
  "committed_rows (map Committed_by_other rows) = rows"
  "lookups (map Committed_by_other rows) = []"
  "thrown (map Committed_by_other rows) = []"
  "embedding_calls (map Committed_by_other rows) = []"
  "generation_calls (map Committed_by_other rows) = []"
  by (induction rows) simp_all

lemma events_since_append [simp]: "trace s' = trace s @ E \<Longrightarrow> events_since s s' = E"
  by (simp add: events_since_def)

lemma findSimilarDocuments_snd:
  "snd (findSimilarDocuments sv q t limit s) =
     (if db_fails sv SelectAllDocuments
      then record_event (Threw ER_DB_UNAVAILABLE) (record_event Called_findSimilarDocuments s)
      else record_event Called_findSimilarDocuments s)"
  by (simp add: findSimilarDocuments_def Let_def)


lemma make_row_record_event [simp]: "make_row nd (record_event e s) = make_row nd s"
  by (simp add: make_row_def)

lemma file_hash_document_of [simp]: "file_hash (document_of cfg file h text summary emb) = h"
  by (simp add: document_of_def)

lemma insertDocument_cases:
  assumes "insertDocument sv nd s = (x, s')"
  obtains
    (rejected) e where "x = Inl e"
      "trace s' = trace s @ [Called_insertDocument (file_hash nd), Threw e]"
      "documents s' = documents s"
      "e = ER_DUP_ENTRY \<longrightarrow> hash_taken (file_hash nd) s'"
  | (stored) "x = Inr (next_id s)"
      "trace s' = trace s @ [Called_insertDocument (file_hash nd), Inserted (make_row nd s)]"
      "documents s' = documents s @ [make_row nd s]"
  using assms by (auto simp: insertDocument_def throw_def Let_def hash_taken_def split: if_splits)

lemma decide_cases:
  assumes "decide sv cfg file text aiSummary0 h emb thr sims s = (r, s')"
  obtains
    (similar) m rest x where "sims = m # rest" "js_ge (similarity_score m) thr"
      "insertDocument sv (document_of cfg file h text (similar_summary m) emb) s = (x, s')"
      "r = (case x of Inl e \<Rightarrow> fallback aiSummary0 e
            | Inr _ \<Rightarrow> no_result\<lparr>isFromRAG := True, aiSummary := Some (sim_ai_summary m),
                     similarDocuments := sims, exactMatch := Some False,
                     bestMatch := Some (sim_filename m, similarity_score m, sim_created_at m)\<rparr>)"
  | (needs) "aiSummary0 = None" "s' = s"
      "r = no_result\<lparr>similarDocuments := sims, exactMatch := Some False,
                     fileHash := Some h, result_embedding := Some emb,
                     needsAiGeneration := True\<rparr>"
  | (store) summary x where "aiSummary0 = Some summary"
      "insertDocument sv (document_of cfg file h text summary emb) s = (x, s')"
      "r = (case x of Inl e \<Rightarrow> fallback aiSummary0 e
            | Inr documentId \<Rightarrow> no_result\<lparr>aiSummary := Some summary, similarDocuments := sims,
                          exactMatch := Some False, newDocumentId := Some documentId\<rparr>)"
  using assms
  by (auto simp: decide_def Let_def split: list.splits option.splits if_splits bool.splits prod.splits sum.splits)

lemmas effect_simps = effect_def one_insert_def degraded_def no_retry_def fallback_def no_result_def

lemma decide_effect:
  assumes "RAG_ENABLED cfg" "decide sv cfg file text ai h emb thr sims s = (r, s')"
  shows "\<exists>E. effect cfg ai h [] s r s' E \<and> (sims = [] \<longrightarrow> \<not> isFromRAG r \<and> aiSummary r = ai)"
  using assms(2)
proof (cases rule: decide_cases)
  case (similar m rest x)
  from similar(3) show ?thesis
  proof (cases rule: insertDocument_cases)
    case (rejected e)
    then show ?thesis using similar assms(1)
      by (intro exI[of _ "[Called_insertDocument h, Threw e]"]) (simp add: effect_simps)
  next
    case stored
    then show ?thesis using similar assms(1)
      by (intro exI[of _ "[Called_insertDocument h,
            Inserted (make_row (document_of cfg file h text (similar_summary m) emb) s)]"])
         (simp add: effect_simps)
  qed
next
  case needs
  then show ?thesis using assms(1)
    by (intro exI[of _ "[]"]) (simp add: effect_simps)
next
  case (store summary x)
  from store(2) show ?thesis
  proof (cases rule: insertDocument_cases)
    case (rejected e)
    then show ?thesis using store assms(1)
      by (intro exI[of _ "[Called_insertDocument h, Threw e]"]) (simp add: effect_simps)
  next
    case stored
    then show ?thesis using store assms(1)
      by (intro exI[of _ "[Called_insertDocument h,
            Inserted (make_row (document_of cfg file h text summary emb) s)]"])
         (simp add: effect_simps)
  qed
qed

lemma effect_prefix:
  assumes "trace s1 = trace s @ P" "documents s1 = documents s @ committed_rows P"
    "inserted_rows P = []" "ER_DUP_ENTRY \<notin> set (thrown P)" "effect cfg ai h L s1 r s' E"
    "thrown P \<noteq> [] \<longrightarrow> \<not> isFromRAG r \<and> aiSummary r = ai"
  shows "effect cfg ai h (lookups P @ L) s r s' (P @ E)"
  using assms by (auto simp: effect_def one_insert_def degraded_def no_retry_def)

lemma effect_fallback:
  assumes "RAG_ENABLED cfg" "trace s' = trace s @ E" "documents s' = documents s @ committed_rows E"
    "inserted_rows E = []" "ER_DUP_ENTRY \<notin> set (thrown E)"
  shows "effect cfg ai h (lookups E) s (fallback ai e) s' E"
  using assms by (simp add: effect_simps)

lemma findSimilarDocuments_failed:
  "db_fails sv SelectAllDocuments \<Longrightarrow> fst (findSimilarDocuments sv q t limit s) = []"
  by (simp add: findSimilarDocuments_def Let_def)

lemma embed_and_search_effect:
  assumes "RAG_ENABLED cfg" "embed_and_search sv cfg file text ai h s = (r, s')"
  shows "\<exists>E. effect cfg ai h [] s r s' E"
proof (cases "embedding_service sv text")
  case None
  then have "r = fallback ai EmbeddingFailed"
    "s' = record_event (Threw EmbeddingFailed) (record_event (Called_generateEmbedding text) s)"
    using assms(2) by (simp_all add: embed_and_search_def generateEmbedding_def throw_def Let_def)
  then have "effect cfg ai h [] s r s' [Called_generateEmbedding text, Threw EmbeddingFailed]"
    using assms(1) effect_fallback[of cfg s' s "[Called_generateEmbedding text, Threw EmbeddingFailed]"]
    by simp
  then show ?thesis by blast
next
  case (Some emb)
  let ?s1 = "commit_concurrent sv AwaitingEmbedding (record_event (Called_generateEmbedding text) s)"
  let ?P1 = "Called_generateEmbedding text # map Committed_by_other
      (new_rows sv AwaitingEmbedding (record_event (Called_generateEmbedding text) s))"
  have s1: "trace ?s1 = trace s @ ?P1" "documents ?s1 = documents s @ committed_rows ?P1"
    by simp_all
  show ?thesis
  proof (cases "db_fails sv (GetRagSetting ''similarity_threshold'')")
    case True
    then have "r = fallback ai ER_DB_UNAVAILABLE"
      "s' = record_event (Threw ER_DB_UNAVAILABLE) (record_event (Called_getRagSetting ''similarity_threshold'') ?s1)"
      using assms(2) Some
      by (simp_all add: embed_and_search_def generateEmbedding_def getRagSetting_def throw_def Let_def)
    then have "effect cfg ai h [] s r s' (?P1 @ [Called_getRagSetting ''similarity_threshold'', Threw ER_DB_UNAVAILABLE])"
      using assms(1) effect_fallback[of cfg s' s
          "?P1 @ [Called_getRagSetting ''similarity_threshold'', Threw ER_DB_UNAVAILABLE]"]
      by simp
    then show ?thesis by blast
  next
    case thr_ok: False
    let ?s2 = "record_event (Called_getRagSetting ''similarity_threshold'') ?s1"
    let ?thr = "threshold_of sv cfg (map_of (rag_settings s) ''similarity_threshold'')"
    show ?thesis
    proof (cases "db_fails sv (GetRagSetting ''max_similar_documents'')")
      case True
      then have "r = fallback ai ER_DB_UNAVAILABLE"
        "s' = record_event (Threw ER_DB_UNAVAILABLE) (record_event (Called_getRagSetting ''max_similar_documents'') ?s2)"
        using assms(2) Some thr_ok
        by (simp_all add: embed_and_search_def generateEmbedding_def getRagSetting_def throw_def Let_def)
      then have "effect cfg ai h [] s r s' (?P1 @ [Called_getRagSetting ''similarity_threshold'',
          Called_getRagSetting ''max_similar_documents'', Threw ER_DB_UNAVAILABLE])"
        using assms(1) effect_fallback[of cfg s' s "?P1 @ [Called_getRagSetting ''similarity_threshold'',
          Called_getRagSetting ''max_similar_documents'', Threw ER_DB_UNAVAILABLE]"]
        by simp
      then show ?thesis by blast
    next
      case max_ok: False
      let ?s3 = "record_event (Called_getRagSetting ''max_similar_documents'') ?s2"
      let ?lim = "maxDocs_of sv cfg (map_of (rag_settings s) ''max_similar_documents'')"
      let ?sims = "fst (findSimilarDocuments sv (JArray emb) ?thr ?lim ?s3)"
      let ?s4 = "snd (findSimilarDocuments sv (JArray emb) ?thr ?lim ?s3)"
      let ?sd = "commit_concurrent sv AwaitingInsert ?s4"
      let ?F = "Called_findSimilarDocuments #
          (if db_fails sv SelectAllDocuments then [Threw ER_DB_UNAVAILABLE] else [])"
      let ?P = "?P1 @ [Called_getRagSetting ''similarity_threshold'',
          Called_getRagSetting ''max_similar_documents''] @ ?F @
          map Committed_by_other (new_rows sv AwaitingInsert ?s4)"
      have dec: "decide sv cfg file text ai h emb ?thr ?sims ?sd = (r, s')"
        using assms(2) Some thr_ok max_ok
        by (simp add: embed_and_search_def generateEmbedding_def getRagSetting_def Let_def
            split: prod.splits)
      have sd: "trace ?sd = trace s @ ?P" "documents ?sd = documents s @ committed_rows ?P"
        by (simp_all add: findSimilarDocuments_snd)
      have ins: "inserted_rows ?P = []" and dup: "ER_DUP_ENTRY \<notin> set (thrown ?P)"
        and lk: "lookups ?P = []"
        by simp_all
      obtain E where E: "effect cfg ai h [] ?sd r s' E" "?sims = [] \<longrightarrow> \<not> isFromRAG r \<and> aiSummary r = ai"
        using decide_effect[OF assms(1) dec] by blast
      have "thrown ?P \<noteq> [] \<longrightarrow> \<not> isFromRAG r \<and> aiSummary r = ai"
        using E(2) by (simp add: findSimilarDocuments_failed)
      with sd ins dup E(1) have "effect cfg ai h (lookups ?P @ []) s r s' (?P @ E)" by (rule effect_prefix)
      then show ?thesis unfolding lk by auto
    qed
  qed
qed

lemma processDocumentWithRAG_effect:
  assumes "processDocumentWithRAG sv cfg file text ai s = (r, s')"
  shows "\<exists>E. effect cfg ai (generateFileHash sv (buffer file))
           (if RAG_ENABLED cfg then [generateFileHash sv (buffer file)] else []) s r s' E"
proof (cases "RAG_ENABLED cfg")
  case False
  then have "r = no_result\<lparr>aiSummary := ai\<rparr>" "s' = s"
    using assms by (simp_all add: processDocumentWithRAG_def)
  then have "effect cfg ai (generateFileHash sv (buffer file)) [] s r s' []" by (simp add: effect_simps)
  then show ?thesis using False by auto
next
  case True
  let ?h = "generateFileHash sv (buffer file)"
  let ?s1 = "record_event (Called_getDocumentByHash ?h) s"
  show ?thesis
  proof (cases "db_fails sv GetDocumentByHash")
    case fails: True
    then have "r = fallback ai ER_DB_UNAVAILABLE" "s' = record_event (Threw ER_DB_UNAVAILABLE) ?s1"
      using assms True by (simp_all add: processDocumentWithRAG_def getDocumentByHash_def throw_def Let_def)
    then have "effect cfg ai ?h [?h] s r s' [Called_getDocumentByHash ?h, Threw ER_DB_UNAVAILABLE]"
      using True effect_fallback[of cfg s' s "[Called_getDocumentByHash ?h, Threw ER_DB_UNAVAILABLE]"]
      by simp
    then show ?thesis using True by auto
  next
    case ok: False
    show ?thesis
    proof (cases "find (\<lambda>d. file_hash d = ?h) (documents s)")
      case (Some existingDoc)
      then have "r = no_result\<lparr>isFromRAG := True, aiSummary := Some (ai_summary existingDoc),
                exactMatch := Some True,
                matchedDocument :=
                  Some (doc_id existingDoc, filename existingDoc, created_at existingDoc)\<rparr>" "s' = ?s1"
        using assms True ok by (simp_all add: processDocumentWithRAG_def getDocumentByHash_def Let_def)
      then have "effect cfg ai ?h [?h] s r s' [Called_getDocumentByHash ?h]"
        using True by (simp add: effect_simps)
      then show ?thesis using True by auto
    next
      case None
      then have "embed_and_search sv cfg file text ai ?h ?s1 = (r, s')"
        using assms True ok by (simp add: processDocumentWithRAG_def getDocumentByHash_def Let_def)
      then obtain E where "effect cfg ai ?h [] ?s1 r s' E"
        using embed_and_search_effect[OF True] by blast
      then have "effect cfg ai ?h (lookups [Called_getDocumentByHash ?h] @ []) s r s' ([Called_getDocumentByHash ?h] @ E)"
        by (intro effect_prefix[where ?s1.0 = ?s1]) simp_all
      then show ?thesis using True by auto
    qed
  qed
qed

subsection \<open>Runs on the example store\<close>

lemmas run_defs =
  processDocumentWithRAG_def embed_and_search_def decide_def getDocumentByHash_def
  generateEmbedding_def getRagSetting_def insertDocument_def findSimilarDocuments_def
  generateFileHash_def throw_def threshold_of_def maxDocs_of_def commit_concurrent_def
  commit_other_def hash_taken_def make_row_def store_row_def record_event_def document_of_def
  similar_summary_def fallback_def no_result_def select_all_newest_first_def
  sort_by_score_def slice0_def js_ge_def entry_def calculateCosineSimilarity_def Let_def
  summarizeLongText_def analyze_pdf_def events_since_def

lemmas example_defs = sv0_def cfg0_def store0_def docA_def docB_def docC_def uploadA_def uploadN_def
  winner_def sv_race_def

lemmas more_defs = sv_busy_def sv_down_def bystander_def

lemma run_exact:
  "processDocumentWithRAG sv0 cfg0 uploadA ''alpha'' (Some ''fresh'') store0 =
     (no_result\<lparr>isFromRAG := True, aiSummary := Some ''Stored summary A'', exactMatch := Some True,
        matchedDocument := Some (1, ''a.pdf'', 100)\<rparr>,
      store0\<lparr>trace := [Called_getDocumentByHash ''sha:AAA'']\<rparr>)"
  by (simp add: run_defs example_defs)

lemma run_similar:
  "processDocumentWithRAG sv0 cfg0 uploadN ''alpha'' (Some ''fresh'') store0 =
     (no_result\<lparr>isFromRAG := True, aiSummary := Some ''Stored summary A'',
        similarDocuments := [entry docA 1], exactMatch := Some False,
        bestMatch := Some (''a.pdf'', 1, 100)\<rparr>,
      store0\<lparr>documents := [docA, docB, docC,
                 row4 ''alpha'' (''[Similar to: a.pdf]'' @ [CHR 10, CHR 10] @ ''Stored summary A'') [1, 0]],
             next_id := 5,
             trace := [Called_getDocumentByHash ''sha:NNN'', Called_generateEmbedding ''alpha'',
               Called_getRagSetting ''similarity_threshold'',
               Called_getRagSetting ''max_similar_documents'', Called_findSimilarDocuments,
               Called_insertDocument ''sha:NNN'',
               Inserted (row4 ''alpha'' (''[Similar to: a.pdf]'' @ [CHR 10, CHR 10] @ ''Stored summary A'') [1, 0])]\<rparr>)"
  by (simp add: run_defs example_defs row4_def)

lemma run_stored:
  "processDocumentWithRAG sv0 cfg0 uploadN ''gamma'' (Some ''fresh'') store0 =
     (no_result\<lparr>aiSummary := Some ''fresh'', exactMatch := Some False, newDocumentId := Some 4\<rparr>,
      store0\<lparr>documents := [docA, docB, docC, row4 ''gamma'' ''fresh'' [0, 1]],
             next_id := 5,
             trace := [Called_getDocumentByHash ''sha:NNN'', Called_generateEmbedding ''gamma'',
               Called_getRagSetting ''similarity_threshold'',
               Called_getRagSetting ''max_similar_documents'', Called_findSimilarDocuments,
               Called_insertDocument ''sha:NNN'', Inserted (row4 ''gamma'' ''fresh'' [0, 1])]\<rparr>)"
  by (simp add: run_defs example_defs row4_def)

lemma run_needs:
  "processDocumentWithRAG sv0 cfg0 uploadN ''gamma'' None store0 =
     (no_result\<lparr>exactMatch := Some False, fileHash := Some ''sha:NNN'',
        result_embedding := Some [0, 1], needsAiGeneration := True\<rparr>,
      store0\<lparr>trace := [Called_getDocumentByHash ''sha:NNN'', Called_generateEmbedding ''gamma'',
               Called_getRagSetting ''similarity_threshold'',
               Called_getRagSetting ''max_similar_documents'', Called_findSimilarDocuments]\<rparr>)"
  by (simp add: run_defs example_defs)

lemma run_embedding_fails:
  "processDocumentWithRAG sv0 cfg0 uploadN ''delta'' (Some ''fresh'') store0 =
     (fallback (Some ''fresh'') EmbeddingFailed,
      store0\<lparr>trace := [Called_getDocumentByHash ''sha:NNN'', Called_generateEmbedding ''delta'',
               Threw EmbeddingFailed]\<rparr>)"
  by (simp add: run_defs example_defs)

lemma run_race:
  "processDocumentWithRAG sv_race cfg0 uploadN ''gamma'' (Some ''fresh'') store0 =
     (fallback (Some ''fresh'') ER_DUP_ENTRY,
      store0\<lparr>documents := [docA, docB, docC, row4 ''gamma'' ''Winner summary'' [0, 1]\<lparr>filename := ''first.pdf''\<rparr>],
             next_id := 5,
             trace := [Called_getDocumentByHash ''sha:NNN'', Called_generateEmbedding ''gamma'',
               Called_getRagSetting ''similarity_threshold'',
               Called_getRagSetting ''max_similar_documents'', Called_findSimilarDocuments,
               Committed_by_other (row4 ''gamma'' ''Winner summary'' [0, 1]\<lparr>filename := ''first.pdf''\<rparr>),
               Called_insertDocument ''sha:NNN'', Threw ER_DUP_ENTRY]\<rparr>)"
  by (simp add: run_defs example_defs row4_def)

lemma run_similar_busy:
  "processDocumentWithRAG sv_busy cfg0 uploadN ''alpha'' (Some ''fresh'') store0 =
     (no_result\<lparr>isFromRAG := True, aiSummary := Some ''Stored summary A'',
        similarDocuments := [entry docA 1], exactMatch := Some False,
        bestMatch := Some (''a.pdf'', 1, 100)\<rparr>,
      store0\<lparr>documents := [docA, docB, docC, row_other,
                 (row4 ''alpha'' (''[Similar to: a.pdf]'' @ [CHR 10, CHR 10] @ ''Stored summary A'') [1, 0])
                   \<lparr>doc_id := 5\<rparr>],
             next_id := 6,
             trace := [Called_getDocumentByHash ''sha:NNN'', Called_generateEmbedding ''alpha'',
               Committed_by_other row_other,
               Called_getRagSetting ''similarity_threshold'',
               Called_getRagSetting ''max_similar_documents'', Called_findSimilarDocuments,
               Called_insertDocument ''sha:NNN'',
               Inserted ((row4 ''alpha'' (''[Similar to: a.pdf]'' @ [CHR 10, CHR 10] @ ''Stored summary A'') [1, 0])
                   \<lparr>doc_id := 5\<rparr>)]\<rparr>)"
  by (simp add: run_defs example_defs more_defs row4_def row_other_def)

lemma run_similar_race:
  "processDocumentWithRAG sv_race cfg0 uploadN ''alpha'' (Some ''fresh'') store0 =
     (fallback (Some ''fresh'') ER_DUP_ENTRY,
      store0\<lparr>documents := [docA, docB, docC, row4 ''gamma'' ''Winner summary'' [0, 1]\<lparr>filename := ''first.pdf''\<rparr>],
             next_id := 5,
             trace := [Called_getDocumentByHash ''sha:NNN'', Called_generateEmbedding ''alpha'',
               Called_getRagSetting ''similarity_threshold'',
               Called_getRagSetting ''max_similar_documents'', Called_findSimilarDocuments,
               Committed_by_other (row4 ''gamma'' ''Winner summary'' [0, 1]\<lparr>filename := ''first.pdf''\<rparr>),
               Called_insertDocument ''sha:NNN'', Threw ER_DUP_ENTRY]\<rparr>)"
  by (simp add: run_defs example_defs row4_def)

lemma run_similar_down:
  "processDocumentWithRAG sv_down cfg0 uploadN ''alpha'' (Some ''fresh'') store0 =
     (fallback (Some ''fresh'') ER_DB_UNAVAILABLE,
      store0\<lparr>trace := [Called_getDocumentByHash ''sha:NNN'', Called_generateEmbedding ''alpha'',
               Called_getRagSetting ''similarity_threshold'',
               Called_getRagSetting ''max_similar_documents'', Called_findSimilarDocuments,
               Called_insertDocument ''sha:NNN'', Threw ER_DB_UNAVAILABLE]\<rparr>)"
  by (simp add: run_defs example_defs more_defs)

lemma uploadN_is_new:
  "find (\<lambda>d. file_hash d = generateFileHash sv_busy (buffer uploadN)) (documents store0) = None"
  "find (\<lambda>d. file_hash d = generateFileHash sv_race (buffer uploadN)) (documents store0) = None"
  "find (\<lambda>d. file_hash d = generateFileHash sv_down (buffer uploadN)) (documents store0) = None"
  by (simp_all add: example_defs more_defs generateFileHash_def)

lemma embeds_alpha:
  "embedding_service sv_busy ''alpha'' = Some [1, 0]"
  "embedding_service sv_race ''alpha'' = Some [1, 0]"
  "embedding_service sv_down ''alpha'' = Some [1, 0]"
  by (simp_all add: sv0_def sv_race_def more_defs)

lemma search_for_alpha_busy:
  "fst (findSimilarDocuments sv_busy (JArray [1, 0])
     (threshold_of sv_busy cfg0 (map_of (rag_settings store0) ''similarity_threshold''))
     (maxDocs_of sv_busy cfg0 (map_of (rag_settings store0) ''max_similar_documents''))
     (commit_concurrent sv_busy AwaitingEmbedding store0)) =
   [entry docA 1]"
  by (simp add: run_defs example_defs more_defs)

lemma search_for_alpha_race:
  "fst (findSimilarDocuments sv_race (JArray [1, 0])
     (threshold_of sv_race cfg0 (map_of (rag_settings store0) ''similarity_threshold''))
     (maxDocs_of sv_race cfg0 (map_of (rag_settings store0) ''max_similar_documents''))
     (commit_concurrent sv_race AwaitingEmbedding store0)) =
   [entry docA 1]"
  by (simp add: run_defs example_defs)

lemma search_for_alpha_down:
  "fst (findSimilarDocuments sv_down (JArray [1, 0])
     (threshold_of sv_down cfg0 (map_of (rag_settings store0) ''similarity_threshold''))
     (maxDocs_of sv_down cfg0 (map_of (rag_settings store0) ''max_similar_documents''))
     (commit_concurrent sv_down AwaitingEmbedding store0)) =
   [entry docA 1]"
  by (simp add: run_defs example_defs more_defs)

lemma analyze_exact:
  "analyze_pdf sv0 cfg0 uploadA ''alpha'' store0 =
     (Inr (''Stored summary A'',
        no_result\<lparr>isFromRAG := True, aiSummary := Some ''Stored summary A'', exactMatch := Some True,
          matchedDocument := Some (1, ''a.pdf'', 100)\<rparr>),
      store0\<lparr>trace := [Called_summarizeLongText ''alpha'', Called_getDocumentByHash ''sha:AAA'']\<rparr>)"
  by (simp add: run_defs example_defs)

lemma analyze_embedding_fails:
  "analyze_pdf sv0 cfg0 uploadN ''delta'' store0 =
     (Inr (''Summary of delta'', fallback (Some ''Summary of delta'') EmbeddingFailed),
      store0\<lparr>trace := [Called_summarizeLongText ''delta'', Called_getDocumentByHash ''sha:NNN'',
               Called_generateEmbedding ''delta'', Threw EmbeddingFailed]\<rparr>)"
  by (simp add: run_defs example_defs)

lemma store0_trace [simp]: "trace store0 = []"
  by (simp add: store0_def)

lemma sv0_generation [simp]: "generation_service sv0 t = Some (''Summary of '' @ t)"
  by (simp add: sv0_def)

lemma sv_race_hash [simp]: "generateFileHash sv_race (buffer uploadN) = ''sha:NNN''"
  by (simp add: generateFileHash_def sv_race_def sv0_def uploadN_def)


lemma findSimilarDocuments_fst_documents:
  "documents s1 = documents s2 \<Longrightarrow>
   fst (findSimilarDocuments sv q t l s1) = fst (findSimilarDocuments sv q t l s2)"
  by (simp add: findSimilarDocuments_result select_all_newest_first_def)

lemma findSimilarDocuments_sources:
  assumes "e \<in> set (fst (findSimilarDocuments sv q t l s))"
  shows "\<exists>d\<in>set (documents s). e = entry d (calculateCosineSimilarity q (embedding d)) \<and>
           js_ge (calculateCosineSimilarity q (embedding d)) t"
proof -
  let ?L = "scan q t (select_all_newest_first s) []"
  have "e \<in> set (slice0 (sort_by_score ?L) l)"
    using assms by (simp add: findSimilarDocuments_result split: if_splits)
  then have "e \<in> set (sort_by_score ?L)" using set_slice0 by (rule subsetD[rotated])
  then have "e \<in> set ?L" by (simp add: sort_by_score_def)
  then obtain d where "d \<in> set (select_all_newest_first s)"
    "e = entry d (calculateCosineSimilarity q (embedding d))"
    "js_ge (calculateCosineSimilarity q (embedding d)) t"
    using scan_sources by blast
  then show ?thesis by (auto simp: select_all_newest_first_def)
qed


lemma cfg0_enabled: "RAG_ENABLED cfg0"
  by (simp add: cfg0_def)

subsection \<open>RAG disabled\<close>

text \<open>
  Claim C10. When \<open>RAG_ENABLED\<close> is not true, \<open>processDocumentWithRAG\<close> leaves the state as
  it is: the table is unchanged and the trace has no new event, so there is no hash lookup,
  no embedding call, no similarity search and no insert; and it returns the caller's
  \<open>aiSummary\<close> unchanged, with \<open>isFromRAG\<close> false and no similar documents.
\<close>

theorem disabled_touches_nothing:
  assumes "\<not> RAG_ENABLED cfg"
  shows "snd (processDocumentWithRAG sv cfg file text aiSummary0 s) = s \<and>
         aiSummary (fst (processDocumentWithRAG sv cfg file text aiSummary0 s)) = aiSummary0 \<and>
         \<not> isFromRAG (fst (processDocumentWithRAG sv cfg file text aiSummary0 s)) \<and>
         similarDocuments (fst (processDocumentWithRAG sv cfg file text aiSummary0 s)) = []"
  using assms by (simp add: processDocumentWithRAG_def no_result_def)

theorem disabled_touches_nothing_witness:
  "\<not> RAG_ENABLED (cfg0\<lparr>RAG_ENABLED := False\<rparr>) \<and>
   snd (processDocumentWithRAG sv0 (cfg0\<lparr>RAG_ENABLED := False\<rparr>) uploadA ''alpha'' (Some ''fresh'') store0) = store0 \<and>
   aiSummary (fst (processDocumentWithRAG sv0 (cfg0\<lparr>RAG_ENABLED := False\<rparr>) uploadA ''alpha'' (Some ''fresh'') store0)) =
     Some ''fresh''"
  using disabled_touches_nothing[of "cfg0\<lparr>RAG_ENABLED := False\<rparr>" sv0 uploadA "''alpha''" "Some ''fresh''" store0]
  by simp

subsection \<open>Inserts\<close>

text \<open>
  Claim C8. Every call of \<open>processDocumentWithRAG\<close> inserts at most one row: the rows of
  the table after the call are those before it followed by the rows committed during it,
  of which at most one is the call's own; the return of the similar match and the return
  with \<open>newDocumentId\<close> go with exactly one inserted row, and the exact match, the disabled
  RAG, the request for a summary and every return that carries an error go with none.
\<close>

theorem at_most_one_insert:
  assumes "processDocumentWithRAG sv cfg file text aiSummary0 s = (r, s')"
  shows "documents s' = documents s @ committed_rows (events_since s s') \<and>
         length (inserted_rows (events_since s s')) \<le> 1 \<and>
         (bestMatch r \<noteq> None \<longrightarrow> length (inserted_rows (events_since s s')) = 1) \<and>
         (newDocumentId r \<noteq> None \<longrightarrow> length (inserted_rows (events_since s s')) = 1) \<and>
         (exactMatch r = Some True \<longrightarrow> inserted_rows (events_since s s') = []) \<and>
         (\<not> RAG_ENABLED cfg \<longrightarrow> inserted_rows (events_since s s') = []) \<and>
         (needsAiGeneration r \<longrightarrow> inserted_rows (events_since s s') = []) \<and>
         (error r \<noteq> None \<longrightarrow> inserted_rows (events_since s s') = [])"
proof -
  obtain E where E: "effect cfg aiSummary0 (generateFileHash sv (buffer file))
      (if RAG_ENABLED cfg then [generateFileHash sv (buffer file)] else []) s r s' E"
    using processDocumentWithRAG_effect[OF assms] by blast
  then have "events_since s s' = E" by (simp add: effect_def)
  with E show ?thesis unfolding effect_def one_insert_def by blast
qed

theorem at_most_one_insert_witness:
  "bestMatch (fst (processDocumentWithRAG sv0 cfg0 uploadN ''alpha'' (Some ''fresh'') store0)) =
     Some (''a.pdf'', 1, 100) \<and>
   length (inserted_rows (events_since store0
     (snd (processDocumentWithRAG sv0 cfg0 uploadN ''alpha'' (Some ''fresh'') store0)))) = 1 \<and>
   newDocumentId (fst (processDocumentWithRAG sv0 cfg0 uploadN ''gamma'' (Some ''fresh'') store0)) = Some 4 \<and>
   length (inserted_rows (events_since store0
     (snd (processDocumentWithRAG sv0 cfg0 uploadN ''gamma'' (Some ''fresh'') store0)))) = 1 \<and>
   exactMatch (fst (processDocumentWithRAG sv0 cfg0 uploadA ''alpha'' (Some ''fresh'') store0)) = Some True \<and>
   inserted_rows (events_since store0
     (snd (processDocumentWithRAG sv0 cfg0 uploadA ''alpha'' (Some ''fresh'') store0))) = [] \<and>
   needsAiGeneration (fst (processDocumentWithRAG sv0 cfg0 uploadN ''gamma'' None store0)) \<and>
   inserted_rows (events_since store0
     (snd (processDocumentWithRAG sv0 cfg0 uploadN ''gamma'' None store0))) = [] \<and>
   error (fst (processDocumentWithRAG sv0 cfg0 uploadN ''delta'' (Some ''fresh'') store0)) =
     Some ''Failed to generate embedding'' \<and>
   inserted_rows (events_since store0
     (snd (processDocumentWithRAG sv0 cfg0 uploadN ''delta'' (Some ''fresh'') store0))) = [] \<and>
   \<not> RAG_ENABLED (cfg0\<lparr>RAG_ENABLED := False\<rparr>) \<and>
   inserted_rows (events_since store0
     (snd (processDocumentWithRAG sv0 (cfg0\<lparr>RAG_ENABLED := False\<rparr>) uploadA ''alpha'' (Some ''fresh'') store0))) = []"
  using at_most_one_insert[OF run_similar] at_most_one_insert[OF run_stored]
    at_most_one_insert[OF run_exact] at_most_one_insert[OF run_needs]
    at_most_one_insert[OF run_embedding_fails]
    at_most_one_insert[OF prod.collapse[symmetric],
      of sv0 "cfg0\<lparr>RAG_ENABLED := False\<rparr>" uploadA "''alpha''" "Some ''fresh''" store0]
  by (simp add: run_similar run_stored run_exact run_needs run_embedding_fails
      no_result_def fallback_def)

subsection \<open>Similar match\<close>

lemma decide_similar:
  assumes "js_ge (similarity_score m) thr"
    and "decide sv cfg file text ai h emb thr (m # rest) s = (r, s')"
  obtains
    (rejected) e where "r = fallback ai e"
      "trace s' = trace s @ [Called_insertDocument h, Threw e]"
  | (stored) "r = no_result\<lparr>isFromRAG := True, aiSummary := Some (sim_ai_summary m),
                     similarDocuments := m # rest, exactMatch := Some False,
                     bestMatch := Some (sim_filename m, similarity_score m, sim_created_at m)\<rparr>"
      "trace s' = trace s @ [Called_insertDocument h,
         Inserted (make_row (document_of cfg file h text (similar_summary m) emb) s)]"
      "documents s' = documents s @ [make_row (document_of cfg file h text (similar_summary m) emb) s]"
proof -
  let ?nd = "document_of cfg file h text (similar_summary m) emb"
  obtain x s'' where ins: "insertDocument sv ?nd s = (x, s'')"
    by (cases "insertDocument sv ?nd s") blast
  have rs: "(r, s') = (case x of Inl e \<Rightarrow> fallback ai e
            | Inr _ \<Rightarrow> no_result\<lparr>isFromRAG := True, aiSummary := Some (sim_ai_summary m),
                     similarDocuments := m # rest, exactMatch := Some False,
                     bestMatch := Some (sim_filename m, similarity_score m, sim_created_at m)\<rparr>, s'')"
    using assms ins by (simp add: decide_def Let_def split: sum.splits)
  from ins show ?thesis
  proof (cases rule: insertDocument_cases)
    case (rejected e)
    then show ?thesis using rs that(1)[of e] by simp
  next
    case stored
    then show ?thesis using rs that(2) by simp
  qed
qed

text \<open>The part of a similar match that precedes the insert.\<close>

lemma similar_match_path:
  assumes "RAG_ENABLED cfg"
    and "find (\<lambda>d. file_hash d = generateFileHash sv (buffer file)) (documents s) = None"
    and "embedding_service sv text = Some emb"
    and "fst (findSimilarDocuments sv (JArray emb)
           (threshold_of sv cfg (map_of (rag_settings s) ''similarity_threshold''))
           (maxDocs_of sv cfg (map_of (rag_settings s) ''max_similar_documents''))
           (commit_concurrent sv AwaitingEmbedding s)) = m # rest"
    and "processDocumentWithRAG sv cfg file text ai s = (r, s')"
  shows "(\<exists>E. trace s' = trace s @ E \<and> thrown E = [ER_DB_UNAVAILABLE] \<and> inserted_rows E = [] \<and>
              r = fallback ai ER_DB_UNAVAILABLE) \<or>
         (\<exists>P sd. trace sd = trace s @ P \<and> thrown P = [] \<and> inserted_rows P = [] \<and>
              decide sv cfg file text ai (generateFileHash sv (buffer file)) emb
                (threshold_of sv cfg (map_of (rag_settings s) ''similarity_threshold''))
                (m # rest) sd = (r, s'))"
proof -
  let ?h = "generateFileHash sv (buffer file)"
  let ?thr = "threshold_of sv cfg (map_of (rag_settings s) ''similarity_threshold'')"
  let ?lim = "maxDocs_of sv cfg (map_of (rag_settings s) ''max_similar_documents'')"
  let ?s0 = "record_event (Called_getDocumentByHash ?h) s"
  let ?s1 = "commit_concurrent sv AwaitingEmbedding (record_event (Called_generateEmbedding text) ?s0)"
  let ?P1 = "[Called_getDocumentByHash ?h, Called_generateEmbedding text] @ map Committed_by_other
      (new_rows sv AwaitingEmbedding (record_event (Called_generateEmbedding text) ?s0))"
  have s1: "trace ?s1 = trace s @ ?P1" by simp
  show ?thesis
  proof (cases "db_fails sv GetDocumentByHash")
    case True
    then have "r = fallback ai ER_DB_UNAVAILABLE" "s' = record_event (Threw ER_DB_UNAVAILABLE) ?s0"
      using assms(1,5) by (simp_all add: processDocumentWithRAG_def getDocumentByHash_def throw_def Let_def)
    then have "trace s' = trace s @ [Called_getDocumentByHash ?h, Threw ER_DB_UNAVAILABLE] \<and>
        thrown [Called_getDocumentByHash ?h, Threw ER_DB_UNAVAILABLE] = [ER_DB_UNAVAILABLE] \<and>
        inserted_rows [Called_getDocumentByHash ?h, Threw ER_DB_UNAVAILABLE] = [] \<and>
        r = fallback ai ER_DB_UNAVAILABLE"
      by simp
    then show ?thesis by blast
  next
    case lookup_ok: False
    have es: "embed_and_search sv cfg file text ai ?h ?s0 = (r, s')"
      using assms(1,2,5) lookup_ok by (simp add: processDocumentWithRAG_def getDocumentByHash_def Let_def)
    show ?thesis
    proof (cases "db_fails sv (GetRagSetting ''similarity_threshold'')")
      case True
      then have "r = fallback ai ER_DB_UNAVAILABLE"
        "s' = record_event (Threw ER_DB_UNAVAILABLE) (record_event (Called_getRagSetting ''similarity_threshold'') ?s1)"
        using es assms(3)
        by (simp_all add: embed_and_search_def generateEmbedding_def getRagSetting_def throw_def Let_def)
      then have "trace s' = trace s @ (?P1 @ [Called_getRagSetting ''similarity_threshold'', Threw ER_DB_UNAVAILABLE]) \<and>
          thrown (?P1 @ [Called_getRagSetting ''similarity_threshold'', Threw ER_DB_UNAVAILABLE]) = [ER_DB_UNAVAILABLE] \<and>
          inserted_rows (?P1 @ [Called_getRagSetting ''similarity_threshold'', Threw ER_DB_UNAVAILABLE]) = [] \<and>
          r = fallback ai ER_DB_UNAVAILABLE"
        by simp
      then show ?thesis by blast
    next
      case thr_ok: False
      let ?s2 = "record_event (Called_getRagSetting ''similarity_threshold'') ?s1"
      show ?thesis
      proof (cases "db_fails sv (GetRagSetting ''max_similar_documents'')")
        case True
        then have "r = fallback ai ER_DB_UNAVAILABLE"
          "s' = record_event (Threw ER_DB_UNAVAILABLE) (record_event (Called_getRagSetting ''max_similar_documents'') ?s2)"
          using es assms(3) thr_ok
          by (simp_all add: embed_and_search_def generateEmbedding_def getRagSetting_def throw_def Let_def)
        then have "trace s' = trace s @ (?P1 @ [Called_getRagSetting ''similarity_threshold'',
              Called_getRagSetting ''max_similar_documents'', Threw ER_DB_UNAVAILABLE]) \<and>
            thrown (?P1 @ [Called_getRagSetting ''similarity_threshold'',
              Called_getRagSetting ''max_similar_documents'', Threw ER_DB_UNAVAILABLE]) = [ER_DB_UNAVAILABLE] \<and>
            inserted_rows (?P1 @ [Called_getRagSetting ''similarity_threshold'',
              Called_getRagSetting ''max_similar_documents'', Threw ER_DB_UNAVAILABLE]) = [] \<and>
            r = fallback ai ER_DB_UNAVAILABLE"
          by simp
        then show ?thesis by blast
      next
        case max_ok: False
        let ?s3 = "record_event (Called_getRagSetting ''max_similar_documents'') ?s2"
        let ?s4 = "snd (findSimilarDocuments sv (JArray emb) ?thr ?lim ?s3)"
        let ?sd = "commit_concurrent sv AwaitingInsert ?s4"
        let ?P = "?P1 @ [Called_getRagSetting ''similarity_threshold'',
            Called_getRagSetting ''max_similar_documents'', Called_findSimilarDocuments] @
            map Committed_by_other (new_rows sv AwaitingInsert ?s4)"
        have "documents ?s1 = documents (commit_concurrent sv AwaitingEmbedding s)"
          by (rule commit_concurrent_same_table) simp_all
        then have "documents ?s3 = documents (commit_concurrent sv AwaitingEmbedding s)" by simp
        then have sims: "fst (findSimilarDocuments sv (JArray emb) ?thr ?lim ?s3) = m # rest"
          using assms(4) findSimilarDocuments_fst_documents[of ?s3 "commit_concurrent sv AwaitingEmbedding s"]
          by simp
        have sel: "\<not> db_fails sv SelectAllDocuments"
          using sims findSimilarDocuments_failed[of sv "JArray emb" ?thr ?lim ?s3] by auto
        have dec: "decide sv cfg file text ai ?h emb ?thr (m # rest) ?sd = (r, s')"
          using es assms(3) thr_ok max_ok sims
          by (simp add: embed_and_search_def generateEmbedding_def getRagSetting_def Let_def
              split: prod.splits)
        have "trace ?sd = trace s @ ?P \<and> thrown ?P = [] \<and> inserted_rows ?P = []"
          using sel by (simp add: findSimilarDocuments_snd)
        with dec show ?thesis by blast
      qed
    qed
  qed
qed

text \<open>
  Claim C9, as stated, fails: a similar match whose insert is rejected stores nothing and
  returns the caller's summary. On the example store the upload \<open>new.pdf\<close> with the text
  \<open>alpha\<close> misses on its hash and matches \<open>a.pdf\<close> with similarity 1. When another request
  commits the same bytes before the insert, or when the database rejects the insert, the
  call returns the caller's \<open>fresh\<close> and not the summary of \<open>a.pdf\<close>, and no row with the
  annotation reaches the table.
\<close>

theorem similar_match_insert_rejected:
  "find (\<lambda>d. file_hash d = generateFileHash sv_race (buffer uploadN)) (documents store0) = None \<and>
   fst (findSimilarDocuments sv_race (JArray [1, 0]) (Some (85 / 100)) (Some 5) store0) =
     [entry docA 1] \<and>
   similarity_score (entry docA 1) = 1 \<and>
   threshold_of sv_race cfg0 (map_of (rag_settings store0) ''similarity_threshold'') =
     Some (85 / 100) \<and>
   fst (processDocumentWithRAG sv_race cfg0 uploadN ''alpha'' (Some ''fresh'') store0) =
     fallback (Some ''fresh'') ER_DUP_ENTRY \<and>
   aiSummary (fst (processDocumentWithRAG sv_race cfg0 uploadN ''alpha'' (Some ''fresh'') store0)) =
     Some ''fresh'' \<and>
   inserted_rows (events_since store0
     (snd (processDocumentWithRAG sv_race cfg0 uploadN ''alpha'' (Some ''fresh'') store0))) = [] \<and>
   map ai_summary
     (documents (snd (processDocumentWithRAG sv_race cfg0 uploadN ''alpha'' (Some ''fresh'') store0))) =
     [''Stored summary A'', ''Stored summary B'', ''Stored summary C'', ''Winner summary''] \<and>
   find (\<lambda>d. file_hash d = generateFileHash sv_down (buffer uploadN)) (documents store0) = None \<and>
   fst (findSimilarDocuments sv_down (JArray [1, 0]) (Some (85 / 100)) (Some 5) store0) =
     [entry docA 1] \<and>
   fst (processDocumentWithRAG sv_down cfg0 uploadN ''alpha'' (Some ''fresh'') store0) =
     fallback (Some ''fresh'') ER_DB_UNAVAILABLE \<and>
   aiSummary (fst (processDocumentWithRAG sv_down cfg0 uploadN ''alpha'' (Some ''fresh'') store0)) =
     Some ''fresh'' \<and>
   documents (snd (processDocumentWithRAG sv_down cfg0 uploadN ''alpha'' (Some ''fresh'') store0)) =
     documents store0"
proof -
  have s1: "fst (findSimilarDocuments sv_race (JArray [1, 0]) (Some (85 / 100)) (Some 5) store0) =
     [entry docA 1]"
    and s2: "fst (findSimilarDocuments sv_down (JArray [1, 0]) (Some (85 / 100)) (Some 5) store0) =
     [entry docA 1]"
    by (simp_all add: run_defs example_defs more_defs)
  have sc: "similarity_score (entry docA 1) = 1" by (simp add: entry_def)
  have th: "threshold_of sv_race cfg0 (map_of (rag_settings store0) ''similarity_threshold'') =
     Some (85 / 100)"
    by (simp add: threshold_of_def example_defs)
  have r1: "map ai_summary
     (documents (snd (processDocumentWithRAG sv_race cfg0 uploadN ''alpha'' (Some ''fresh'') store0))) =
     [''Stored summary A'', ''Stored summary B'', ''Stored summary C'', ''Winner summary'']"
    by (simp add: run_similar_race row4_def docA_def docB_def docC_def)
  have r2: "inserted_rows (events_since store0
     (snd (processDocumentWithRAG sv_race cfg0 uploadN ''alpha'' (Some ''fresh'') store0))) = []"
    by (simp add: run_similar_race events_since_def)
  have r3: "documents (snd (processDocumentWithRAG sv_down cfg0 uploadN ''alpha'' (Some ''fresh'') store0)) =
     documents store0"
    by (simp add: run_similar_down)
  have f1: "fst (processDocumentWithRAG sv_race cfg0 uploadN ''alpha'' (Some ''fresh'') store0) =
     fallback (Some ''fresh'') ER_DUP_ENTRY"
    and f2: "fst (processDocumentWithRAG sv_down cfg0 uploadN ''alpha'' (Some ''fresh'') store0) =
     fallback (Some ''fresh'') ER_DB_UNAVAILABLE"
    by (simp_all add: run_similar_race run_similar_down)
  have a1: "aiSummary (fst (processDocumentWithRAG sv_race cfg0 uploadN ''alpha'' (Some ''fresh'') store0)) =
     Some ''fresh''"
    and a2: "aiSummary (fst (processDocumentWithRAG sv_down cfg0 uploadN ''alpha'' (Some ''fresh'') store0)) =
     Some ''fresh''"
    by (simp_all add: f1 f2 fallback_def no_result_def)
  show ?thesis
    by (intro conjI) (fact uploadN_is_new s1 s2 sc th r1 r2 r3 f1 f2 a1 a2)+
qed

text \<open>
  Claim C9, amended. Take a similar match: RAG is enabled, the hash is not stored, the
  embedding is generated, and the search, on the table as it stands once the embedding has
  arrived, returns a best match \<open>m\<close>. Then \<open>m\<close> comes from a stored document \<open>d\<close> and its
  similarity is at least the threshold. If no call throws, one row is inserted for the
  uploaded file whose \<open>ai_summary\<close> is \<open>[Similar to: \<close> the filename of \<open>d\<close> \<open>]\<close>, two
  newlines and the summary of \<open>d\<close>, and the returned \<open>aiSummary\<close> is the summary of \<open>d\<close>
  without that prefix. If a call throws (a database call fails, or the insert is rejected
  because the hash has been committed meanwhile), nothing is inserted and the \<open>catch\<close>
  block returns the caller's summary.
\<close>

theorem similar_match_stores_annotated_copy:
  assumes "RAG_ENABLED cfg"
    and "find (\<lambda>d. file_hash d = generateFileHash sv (buffer file)) (documents s) = None"
    and "embedding_service sv text = Some emb"
    and "fst (findSimilarDocuments sv (JArray emb)
           (threshold_of sv cfg (map_of (rag_settings s) ''similarity_threshold''))
           (maxDocs_of sv cfg (map_of (rag_settings s) ''max_similar_documents''))
           (commit_concurrent sv AwaitingEmbedding s)) = m # rest"
    and "processDocumentWithRAG sv cfg file text aiSummary0 s = (r, s')"
  shows "\<exists>d. d \<in> set (documents (commit_concurrent sv AwaitingEmbedding s)) \<and>
           m = entry d (calculateCosineSimilarity (JArray emb) (embedding d)) \<and>
           js_ge (similarity_score m)
             (threshold_of sv cfg (map_of (rag_settings s) ''similarity_threshold'')) \<and>
           (if thrown (events_since s s') = [] then
              (\<exists>row. inserted_rows (events_since s s') = [row] \<and>
                 row \<in> set (documents s') \<and>
                 file_hash row = generateFileHash sv (buffer file) \<and>
                 filename row = originalname file \<and>
                 extracted_text row = text \<and>
                 embedding row = JArray emb \<and>
                 ai_summary row =
                   ''[Similar to: '' @ filename d @ '']'' @ [CHR 10, CHR 10] @ ai_summary d) \<and>
              isFromRAG r \<and> exactMatch r = Some False \<and>
              aiSummary r = Some (ai_summary d) \<and>
              bestMatch r = Some (filename d, similarity_score m, created_at d)
            else
              (\<exists>e. thrown (events_since s s') = [e] \<and> r = fallback aiSummary0 e) \<and>
              inserted_rows (events_since s s') = [])"
proof -
  let ?h = "generateFileHash sv (buffer file)"
  let ?thr = "threshold_of sv cfg (map_of (rag_settings s) ''similarity_threshold'')"
  let ?lim = "maxDocs_of sv cfg (map_of (rag_settings s) ''max_similar_documents'')"
  let ?table = "commit_concurrent sv AwaitingEmbedding s"
  have "m \<in> set (fst (findSimilarDocuments sv (JArray emb) ?thr ?lim ?table))"
    using assms(4) by simp
  then obtain d where d: "d \<in> set (documents ?table)"
    "m = entry d (calculateCosineSimilarity (JArray emb) (embedding d))"
    "js_ge (calculateCosineSimilarity (JArray emb) (embedding d)) ?thr"
    using findSimilarDocuments_sources by blast
  have ge: "js_ge (similarity_score m) ?thr" using d(2,3) by (simp add: entry_def)
  have md: "sim_filename m = filename d" "sim_ai_summary m = ai_summary d"
    "sim_created_at m = created_at d"
    using d(2) by (simp_all add: entry_def)
  consider
    (early) E where "trace s' = trace s @ E" "thrown E = [ER_DB_UNAVAILABLE]" "inserted_rows E = []"
      "r = fallback aiSummary0 ER_DB_UNAVAILABLE"
  | (decided) P sd where "trace sd = trace s @ P" "thrown P = []" "inserted_rows P = []"
      "decide sv cfg file text aiSummary0 ?h emb ?thr (m # rest) sd = (r, s')"
    using similar_match_path[OF assms] by blast
  then have "if thrown (events_since s s') = [] then
              (\<exists>row. inserted_rows (events_since s s') = [row] \<and>
                 row \<in> set (documents s') \<and>
                 file_hash row = ?h \<and>
                 filename row = originalname file \<and>
                 extracted_text row = text \<and>
                 embedding row = JArray emb \<and>
                 ai_summary row =
                   ''[Similar to: '' @ filename d @ '']'' @ [CHR 10, CHR 10] @ ai_summary d) \<and>
              isFromRAG r \<and> exactMatch r = Some False \<and>
              aiSummary r = Some (ai_summary d) \<and>
              bestMatch r = Some (filename d, similarity_score m, created_at d)
            else
              (\<exists>e. thrown (events_since s s') = [e] \<and> r = fallback aiSummary0 e) \<and>
              inserted_rows (events_since s s') = []"
  proof cases
    case early
    then show ?thesis by simp
  next
    case decided
    from ge decided(4) show ?thesis
    proof (cases rule: decide_similar)
      case (rejected e)
      then have "trace s' = trace s @ (P @ [Called_insertDocument ?h, Threw e])"
        using decided(1) by simp
      then have "events_since s s' = P @ [Called_insertDocument ?h, Threw e]" by simp
      then show ?thesis using decided(2,3) rejected(1) by simp
    next
      case stored
      let ?row = "make_row (document_of cfg file ?h text (similar_summary m) emb) sd"
      have "trace s' = trace s @ (P @ [Called_insertDocument ?h, Inserted ?row])"
        using decided(1) stored(2) by simp
      then have ev: "events_since s s' = P @ [Called_insertDocument ?h, Inserted ?row]" by simp
      have row: "file_hash ?row = ?h" "filename ?row = originalname file"
        "extracted_text ?row = text" "embedding ?row = JArray emb"
        "ai_summary ?row = ''[Similar to: '' @ filename d @ '']'' @ [CHR 10, CHR 10] @ ai_summary d"
        using md by (simp_all add: make_row_def document_of_def similar_summary_def)
      have "?row \<in> set (documents s')" using stored(3) by simp
      moreover have "inserted_rows (events_since s s') = [?row]" "thrown (events_since s s') = []"
        using ev decided(2,3) by simp_all
      moreover have "isFromRAG r" "exactMatch r = Some False" "aiSummary r = Some (ai_summary d)"
        "bestMatch r = Some (filename d, similarity_score m, created_at d)"
        using stored(1) md by (simp_all add: no_result_def)
      ultimately show ?thesis using row by auto
    qed
  qed
  with d(1,2) ge show ?thesis by blast
qed

theorem similar_match_stores_annotated_copy_witness:
  "RAG_ENABLED cfg0 \<and>
   find (\<lambda>d. file_hash d = generateFileHash sv_busy (buffer uploadN)) (documents store0) = None \<and>
   embedding_service sv_busy ''alpha'' = Some [1, 0] \<and>
   fst (findSimilarDocuments sv_busy (JArray [1, 0])
     (threshold_of sv_busy cfg0 (map_of (rag_settings store0) ''similarity_threshold''))
     (maxDocs_of sv_busy cfg0 (map_of (rag_settings store0) ''max_similar_documents''))
     (commit_concurrent sv_busy AwaitingEmbedding store0)) = [entry docA 1] \<and>
   thrown (events_since store0
     (snd (processDocumentWithRAG sv_busy cfg0 uploadN ''alpha'' (Some ''fresh'') store0))) = [] \<and>
   map ai_summary (inserted_rows (events_since store0
     (snd (processDocumentWithRAG sv_busy cfg0 uploadN ''alpha'' (Some ''fresh'') store0)))) =
     [''[Similar to: a.pdf]'' @ [CHR 10, CHR 10] @ ''Stored summary A''] \<and>
   aiSummary (fst (processDocumentWithRAG sv_busy cfg0 uploadN ''alpha'' (Some ''fresh'') store0)) =
     Some ''Stored summary A'' \<and>
   find (\<lambda>d. file_hash d = generateFileHash sv_race (buffer uploadN)) (documents store0) = None \<and>
   embedding_service sv_race ''alpha'' = Some [1, 0] \<and>
   fst (findSimilarDocuments sv_race (JArray [1, 0])
     (threshold_of sv_race cfg0 (map_of (rag_settings store0) ''similarity_threshold''))
     (maxDocs_of sv_race cfg0 (map_of (rag_settings store0) ''max_similar_documents''))
     (commit_concurrent sv_race AwaitingEmbedding store0)) = [entry docA 1] \<and>
   thrown (events_since store0
     (snd (processDocumentWithRAG sv_race cfg0 uploadN ''alpha'' (Some ''fresh'') store0))) = [ER_DUP_ENTRY] \<and>
   fst (processDocumentWithRAG sv_race cfg0 uploadN ''alpha'' (Some ''fresh'') store0) =
     fallback (Some ''fresh'') ER_DUP_ENTRY \<and>
   inserted_rows (events_since store0
     (snd (processDocumentWithRAG sv_race cfg0 uploadN ''alpha'' (Some ''fresh'') store0))) = []"
  using similar_match_stores_annotated_copy[OF cfg0_enabled uploadN_is_new(1)
      embeds_alpha(1) search_for_alpha_busy run_similar_busy]
    similar_match_stores_annotated_copy[OF cfg0_enabled uploadN_is_new(2)
      embeds_alpha(2) search_for_alpha_race run_similar_race]
    cfg0_enabled uploadN_is_new embeds_alpha search_for_alpha_busy search_for_alpha_race
  by (simp add: run_similar_busy run_similar_race no_result_def row4_def events_since_def)

subsection \<open>Failures of the cache layer\<close>

text \<open>
  Claim C3. When the generation service answers, the summarising branch of \<open>/analyze\<close>
  always returns a response, whatever the embedding service, the database calls and other
  requests do; and whenever an exception was thrown on the way (by the hash lookup, the
  embedding, a settings read, the similarity query or the insert), the response is the
  freshly generated summary, which is also the \<open>aiSummary\<close> of the result that the
  \<open>catch\<close> block returns, and it is not marked as coming from the RAG store.
\<close>

theorem cache_failure_degrades_to_generation:
  assumes "generation_service sv text = Some summary"
    and "analyze_pdf sv cfg file text s = (x, s')"
  shows "\<exists>aiResponse r. x = Inr (aiResponse, r) \<and>
           (thrown (events_since s s') \<noteq> [] \<longrightarrow>
              aiResponse = summary \<and> \<not> isFromRAG r \<and> aiSummary r = Some summary)"
proof (cases "RAG_ENABLED cfg")
  case False
  then have "x = Inr (summary, no_result\<lparr>aiSummary := Some summary, exactMatch := Some False\<rparr>)"
    "s' = record_event (Called_summarizeLongText text) s"
    using assms by (simp_all add: analyze_pdf_def summarizeLongText_def Let_def)
  then show ?thesis by (simp add: events_since_def no_result_def)
next
  case True
  let ?s1 = "record_event (Called_summarizeLongText text) s"
  obtain r s2 where run: "processDocumentWithRAG sv cfg file text (Some summary) ?s1 = (r, s2)"
    by (cases "processDocumentWithRAG sv cfg file text (Some summary) ?s1") blast
  obtain E where E: "effect cfg (Some summary) (generateFileHash sv (buffer file))
      (if RAG_ENABLED cfg then [generateFileHash sv (buffer file)] else []) ?s1 r s2 E"
    using processDocumentWithRAG_effect[OF run] by blast
  then have tr: "trace s2 = trace s @ (Called_summarizeLongText text # E)"
    by (simp add: effect_def)
  have deg: "degraded (Some summary) r E" using E by (simp add: effect_def)
  show ?thesis
  proof (cases "isFromRAG r")
    case rag: True
    then obtain a where a: "aiSummary r = Some a" using deg by (auto simp: degraded_def)
    have th: "thrown E = []" using deg rag by (auto simp: degraded_def)
    have "x = Inr (a, r)" "s' = s2"
      using assms True run rag a by (simp_all add: analyze_pdf_def summarizeLongText_def Let_def)
    then show ?thesis using tr th by simp
  next
    case False
    then have "x = Inr (summary, r)" "s' = s2"
      using assms True run by (simp_all add: analyze_pdf_def summarizeLongText_def Let_def)
    moreover have "thrown (events_since s s2) \<noteq> [] \<longrightarrow> aiSummary r = Some summary"
      using tr deg by (simp add: degraded_def)
    ultimately show ?thesis using False by simp
  qed
qed

theorem cache_failure_degrades_to_generation_witness:
  "generation_service sv0 ''delta'' = Some ''Summary of delta'' \<and>
   thrown (events_since store0 (snd (analyze_pdf sv0 cfg0 uploadN ''delta'' store0))) = [EmbeddingFailed] \<and>
   fst (analyze_pdf sv0 cfg0 uploadN ''delta'' store0) =
     Inr (''Summary of delta'', fallback (Some ''Summary of delta'') EmbeddingFailed)"
  using cache_failure_degrades_to_generation[OF _ analyze_embedding_fails, of "''Summary of delta''"]
  by (simp add: analyze_embedding_fails events_since_def)

subsection \<open>Duplicate hash on insert\<close>

text \<open>
  Claim C7, as stated, fails: when another request commits the same bytes between this
  request's similarity search and its insert, the insert is rejected, and the caller gets
  its own summary back with an error message, not the summary stored by the winner; the
  hash is looked up once.
\<close>

theorem duplicate_insert_returns_callers_summary:
  "aiSummary (fst (processDocumentWithRAG sv_race cfg0 uploadN ''gamma'' (Some ''fresh'') store0)) =
     Some ''fresh'' \<and>
   error (fst (processDocumentWithRAG sv_race cfg0 uploadN ''gamma'' (Some ''fresh'') store0)) =
     Some (message ER_DUP_ENTRY) \<and>
   map ai_summary (filter (\<lambda>d. file_hash d = ''sha:NNN'')
     (documents (snd (processDocumentWithRAG sv_race cfg0 uploadN ''gamma'' (Some ''fresh'') store0)))) =
     [''Winner summary''] \<and>
   lookups (trace (snd (processDocumentWithRAG sv_race cfg0 uploadN ''gamma'' (Some ''fresh'') store0))) =
     [''sha:NNN'']"
  by (simp add: run_race fallback_def no_result_def row4_def docA_def docB_def docC_def)

text \<open>
  Claim C7, amended. When the insert is rejected because the hash is already stored, the
  table keeps the stored row and gets no row from this call, and \<open>processDocumentWithRAG\<close>
  does not look the hash up again: the rejection is caught by the general handler, which
  returns the caller's \<open>aiSummary\<close> with \<open>isFromRAG\<close> false and the error message.
\<close>

theorem duplicate_insert_not_retried:
  assumes "processDocumentWithRAG sv cfg file text aiSummary0 s = (r, s')"
    and "ER_DUP_ENTRY \<in> set (thrown (events_since s s'))"
  shows "r = fallback aiSummary0 ER_DUP_ENTRY \<and>
         lookups (events_since s s') = [generateFileHash sv (buffer file)] \<and>
         inserted_rows (events_since s s') = [] \<and>
         hash_taken (generateFileHash sv (buffer file)) s'"
proof -
  obtain E where E: "effect cfg aiSummary0 (generateFileHash sv (buffer file))
      (if RAG_ENABLED cfg then [generateFileHash sv (buffer file)] else []) s r s' E"
    using processDocumentWithRAG_effect[OF assms(1)] by blast
  then have ev: "events_since s s' = E" by (simp add: effect_def)
  have "RAG_ENABLED cfg"
  proof (rule ccontr)
    assume "\<not> RAG_ENABLED cfg"
    then have "s' = s" using assms(1) by (simp add: processDocumentWithRAG_def)
    then show False using assms(2) by (simp add: events_since_def)
  qed
  moreover have r: "r = fallback aiSummary0 ER_DUP_ENTRY"
    and "hash_taken (generateFileHash sv (buffer file)) s'"
    using E assms(2) ev by (simp_all add: effect_def no_retry_def)
  moreover have "inserted_rows E = []"
    using E r by (simp add: effect_def one_insert_def fallback_def no_result_def)
  ultimately show ?thesis using E ev by (simp add: effect_def)
qed

theorem duplicate_insert_not_retried_witness:
  "ER_DUP_ENTRY \<in> set (thrown (events_since store0
     (snd (processDocumentWithRAG sv_race cfg0 uploadN ''gamma'' (Some ''fresh'') store0)))) \<and>
   fst (processDocumentWithRAG sv_race cfg0 uploadN ''gamma'' (Some ''fresh'') store0) =
     fallback (Some ''fresh'') ER_DUP_ENTRY \<and>
   lookups (events_since store0
     (snd (processDocumentWithRAG sv_race cfg0 uploadN ''gamma'' (Some ''fresh'') store0))) =
     [generateFileHash sv_race (buffer uploadN)]"
  using duplicate_insert_not_retried[OF run_race]
  by (simp add: run_race events_since_def)

subsection \<open>Exact match\<close>

text \<open>In \<open>processDocumentWithRAG\<close> itself the hash lookup is the first call, and a hit returns
  the stored summary at once.\<close>

lemma exact_match_returns_stored:
  assumes "RAG_ENABLED cfg" "\<not> db_fails sv GetDocumentByHash"
    and "find (\<lambda>d. file_hash d = generateFileHash sv (buffer file)) (documents s) = Some d"
  shows "processDocumentWithRAG sv cfg file text aiSummary0 s =
     (no_result\<lparr>isFromRAG := True, aiSummary := Some (ai_summary d), exactMatch := Some True,
        matchedDocument := Some (doc_id d, filename d, created_at d)\<rparr>,
      record_event (Called_getDocumentByHash (generateFileHash sv (buffer file))) s)"
  using assms by (simp add: processDocumentWithRAG_def getDocumentByHash_def Let_def)

text \<open>
  Claim C1. An upload whose hash is stored gets the stored summary back and nothing is
  inserted, but the handler of \<open>/analyze\<close> has by then called the generation model: it
  summarises first and looks the hash up afterwards. On the example store, for a second
  upload of the bytes of \<open>a.pdf\<close>:
\<close>

theorem exact_match_still_generates:
  "fst (analyze_pdf sv0 cfg0 uploadA ''alpha'' store0) =
     Inr (''Stored summary A'',
        no_result\<lparr>isFromRAG := True, aiSummary := Some ''Stored summary A'', exactMatch := Some True,
          matchedDocument := Some (1, ''a.pdf'', 100)\<rparr>) \<and>
   trace (snd (analyze_pdf sv0 cfg0 uploadA ''alpha'' store0)) =
     [Called_summarizeLongText ''alpha'', Called_getDocumentByHash ''sha:AAA''] \<and>
   generation_calls (trace (snd (analyze_pdf sv0 cfg0 uploadA ''alpha'' store0))) = [''alpha'']"
  by (simp add: analyze_exact)

end
